theory Spec2Isabelle
  imports Main "HOL-Library.Word" "HOL-Library.Multiset"
begin

section \<open>Data model\<close>

text \<open>
  Go's \<^verbatim>\<open>int64\<close> is a 64-bit word: \<open>+\<close>, \<open>-\<close> and \<open>*\<close> wrap around, and the
  comparisons of the source are the signed ones, \<open><s\<close> and \<open>\<le>s\<close>. Go's \<^verbatim>\<open>int\<close>
  fields that the code only compares (confirmation counts, the query limit) are
  \<open>int\<close>; slice lengths are \<open>nat\<close>.
\<close>

type_synonym int64 = "64 word"

text \<open>\<^verbatim>\<open>types.UTXO\<close>\<close>

record UTXO =
  TxID :: string
  Vout :: "32 word"
  Value :: int64
  ScriptPubKey :: string
  Address :: string
  Confirmations :: int
  Height :: int
  IsNative :: bool
  TokenID :: string
  TokenAmount :: int64

text \<open>\<^verbatim>\<open>config.TransactionConfig\<close>\<close>

record TransactionConfig =
  DefaultFeeRate :: int64
  MinFeeRate :: int64
  MaxFeeRate :: int64
  DustLimit :: int64
  MaxTransactionSize :: int
  EnableRBF :: bool
  IncludeNativeUTXOs :: bool
  IncludeNonNativeUTXOs :: bool

text \<open>\<^verbatim>\<open>getDefaultTransactionConfig\<close>\<close>

definition getDefaultTransactionConfig :: TransactionConfig where
  "getDefaultTransactionConfig =
     \<lparr>DefaultFeeRate = 5, MinFeeRate = 1, MaxFeeRate = 1000, DustLimit = 546,
      MaxTransactionSize = 100000, EnableRBF = False,
      IncludeNativeUTXOs = True, IncludeNonNativeUTXOs = False\<rparr>"

text \<open>\<^verbatim>\<open>config.UTXOConfig\<close>, \<^verbatim>\<open>config.NetworkConfig\<close> and \<^verbatim>\<open>config.Config\<close>\<close>

record UTXOConfig =
  IncludeNative :: bool
  IncludeNonNative :: bool
  MinConfirmations :: int
  MaxUTXOsPerQuery :: int
  EnableCaching :: bool
  CacheExpiry :: int

record NetworkConfig =
  Name :: string
  RPCURL :: string
  ExplorerURL :: string
  IsTestnet :: bool
  ChainID :: string
  CoinType :: "32 word"

record Config =
  cfg_Network :: NetworkConfig
  cfg_UTXO :: UTXOConfig
  cfg_Transaction :: TransactionConfig

text \<open>\<^verbatim>\<open>getDefaultUTXOConfig\<close>, \<^verbatim>\<open>getTestnetConfig\<close>, \<^verbatim>\<open>getDefaultConfig\<close>\<close>

definition getDefaultUTXOConfig :: UTXOConfig where
  "getDefaultUTXOConfig =
     \<lparr>IncludeNative = True, IncludeNonNative = True, MinConfirmations = 1,
      MaxUTXOsPerQuery = 100, EnableCaching = True, CacheExpiry = 300\<rparr>"

definition getTestnetConfig :: NetworkConfig where
  "getTestnetConfig =
     \<lparr>Name = ''BSV Testnet'', RPCURL = ''https://api.whatsonchain.com/v1/bsv/test'',
      ExplorerURL = ''https://test.whatsonchain.com'', IsTestnet = True,
      ChainID = ''testnet'', CoinType = 1\<rparr>"

definition getDefaultConfig :: Config where
  "getDefaultConfig =
     \<lparr>cfg_Network = getTestnetConfig, cfg_UTXO = getDefaultUTXOConfig,
      cfg_Transaction = getDefaultTransactionConfig\<rparr>"

text \<open>
  \<^verbatim>\<open>validateTransactionConfig\<close>, the guard of \<^verbatim>\<open>UpdateConfig\<close> and
  \<^verbatim>\<open>UpdateTransactionConfig\<close> (\<^verbatim>\<open>NewManagerWithConfig\<close> stores a configuration
  without it). \<open>True\<close> stands for the \<^verbatim>\<open>nil\<close> error.
\<close>

definition validateTransactionConfig :: "TransactionConfig \<Rightarrow> bool" where
  "validateTransactionConfig tx =
     (if DefaultFeeRate tx \<le>s 0 then False
      else if MinFeeRate tx \<le>s 0 then False
      else if MaxFeeRate tx \<le>s 0 then False
      else if MaxFeeRate tx <s MinFeeRate tx then False
      else if DustLimit tx <s 0 then False
      else if MaxTransactionSize tx \<le> 0 then False
      else True)"

text \<open>The API responses \<^verbatim>\<open>EnhancedUTXOResponse\<close> and \<^verbatim>\<open>EnhancedBalanceResponse\<close>\<close>

record EnhancedUTXOResponse =
  resp_TxID :: string
  resp_Vout :: "32 word"
  resp_Value :: int64
  resp_ScriptPubKey :: string
  resp_Address :: string
  resp_Confirmations :: int
  resp_Height :: int

record EnhancedBalanceResponse =
  bal_Confirmed :: int64
  bal_Unconfirmed :: int64

text \<open>
  The balance records of \<^verbatim>\<open>types\<close>: \<^verbatim>\<open>NativeBalanceInfo\<close>, \<^verbatim>\<open>TokenBalance\<close>,
  \<^verbatim>\<open>NonNativeBalanceInfo\<close> (its \<^verbatim>\<open>Tokens\<close> is a Go map) and
  \<^verbatim>\<open>EnhancedBalanceInfo\<close>.
\<close>

record NativeBalanceInfo =
  nb_Confirmed :: int64
  nb_Unconfirmed :: int64
  nb_Total :: int64
  nb_UTXOCount :: nat

record TokenBalance =
  tb_TokenID :: string
  tb_Confirmed :: int64
  tb_Unconfirmed :: int64
  tb_Total :: int64
  tb_UTXOCount :: nat

record NonNativeBalanceInfo =
  nn_Tokens :: "string \<rightharpoonup> TokenBalance"
  nn_UTXOCount :: nat

record EnhancedBalanceInfo =
  eb_Native :: NativeBalanceInfo
  eb_NonNative :: NonNativeBalanceInfo
  eb_Total :: int64

text \<open>
  \<^verbatim>\<open>CacheEntry\<close>. A \<^verbatim>\<open>time.Time\<close> is the instant in nanoseconds, an \<open>int\<close>; a
  \<^verbatim>\<open>nil\<close> slice is the empty list and a \<^verbatim>\<open>nil\<close> balance pointer is \<open>None\<close>.
\<close>

record CacheEntry =
  UTXOs :: "UTXO list"
  Balance :: "EnhancedBalanceInfo option"
  Timestamp :: int

text \<open>
  The errors of the source are \<^verbatim>\<open>fmt.Errorf\<close> strings; each format string is a
  constructor that carries the values it prints. A wrapped error
  (\<^verbatim>\<open>"failed to select UTXOs: %v"\<close>) carries the error it wraps.
\<close>

datatype error =
    RequestFailed string
  | GetUTXOsFailed error
  | GetBalanceFailed error
  | GetUTXOsForBalanceFailed error
  | NoUTXOsAvailable string
  | NoSuitableUTXOs
  | FeeRateExceedsMaximumAllowed int64 int64
  | InsufficientFunds int64 int64
  | InsufficientTokenBalance int64 int64
  | InsufficientNativeForFees int64 int64
  | SenderAddressRequired
  | RecipientAddressRequired
  | AmountMustBePositive
  | PrivateKeyRequired
  | FeeRateBelowMinimum int64 int64
  | FeeRateExceedsMaximum int64 int64
  | TokenIDRequired nat
  | TokenRecipientRequired nat
  | TokenAmountMustBePositive nat
  | SenderInfoFailed string
  | SenderAddressMismatch string string
  | SelectForTokenTransferFailed error
  | SelectFailed error
  | NoTokenTransfers
  | InvalidUTXOHash string
  | AddOutputsFailed error
  | InvalidRecipientAddress string
  | RecipientScriptFailed string
  | TokenTransferScriptFailed string
  | InvalidDataOutputHex string
  | DataOutputScriptFailed string
  | InvalidSenderAddress string
  | ChangeScriptFailed string
  | SignFailed error
  | DecodeAddressFailed string
  | CreateScriptFailed string
  | SignatureScriptFailed string

section \<open>Sorting\<close>

text \<open>
  \<^verbatim>\<open>sortUTXOsByValue\<close> and \<^verbatim>\<open>sortUTXOsByTokenAmount\<close> are the same two nested
  loops over a copy of the slice, on the fields \<^verbatim>\<open>Value\<close> and \<^verbatim>\<open>TokenAmount\<close>; the
  field is the parameter \<open>key\<close>. \<open>swap_adjacent\<close> is the tuple assignment
  \<^verbatim>\<open>sorted[j], sorted[j+1] = sorted[j+1], sorted[j]\<close>. The loop bounds are the
  source's \<^verbatim>\<open>int\<close> expressions \<^verbatim>\<open>len(sorted)-i-1\<close> and \<^verbatim>\<open>len(sorted)-1\<close>.
\<close>

definition swap_adjacent :: "'a list \<Rightarrow> nat \<Rightarrow> 'a list" where
  "swap_adjacent sorted' j = sorted'[j := sorted' ! (j + 1), j + 1 := sorted' ! j]"

function bubble_inner :: "('a \<Rightarrow> int64) \<Rightarrow> nat \<Rightarrow> nat \<Rightarrow> 'a list \<Rightarrow> 'a list" where
  "bubble_inner key i j sorted' =
     (if int j < int (length sorted') - int i - 1
      then bubble_inner key i (j + 1)
             (if key (sorted' ! j) <s key (sorted' ! (j + 1))
              then swap_adjacent sorted' j else sorted')
      else sorted')"
  by pat_completeness auto
termination
  by (relation "measure (\<lambda>(key, i, j, sorted'). nat (int (length sorted') - int i - 1 - int j))")
     (auto simp: swap_adjacent_def)

declare bubble_inner.simps [simp del]

lemma length_swap_adjacent: "length (swap_adjacent xs j) = length xs"
  by (simp add: swap_adjacent_def)

lemma length_bubble_inner: "length (bubble_inner key i j xs) = length xs"
proof (induction key i j xs rule: bubble_inner.induct)
  case (1 key i j xs)
  show ?case
  proof (cases "int j < int (length xs) - int i - 1")
    case True
    with "1.IH" show ?thesis
      by (subst bubble_inner.simps) (simp add: length_swap_adjacent)
  next
    case False
    then show ?thesis by (subst bubble_inner.simps) simp
  qed
qed

function bubble_outer :: "('a \<Rightarrow> int64) \<Rightarrow> nat \<Rightarrow> 'a list \<Rightarrow> 'a list" where
  "bubble_outer key i sorted' =
     (if int i < int (length sorted') - 1
      then bubble_outer key (i + 1) (bubble_inner key i 0 sorted')
      else sorted')"
  by pat_completeness auto
termination
  by (relation "measure (\<lambda>(key, i, sorted'). nat (int (length sorted') - 1 - int i))")
     (auto simp: length_bubble_inner)

declare bubble_outer.simps [simp del]

definition sortUTXOsByValue :: "UTXO list \<Rightarrow> UTXO list" where
  "sortUTXOsByValue utxos = bubble_outer Value 0 utxos"

definition sortUTXOsByTokenAmount :: "UTXO list \<Rightarrow> UTXO list" where
  "sortUTXOsByTokenAmount utxos = bubble_outer TokenAmount 0 utxos"

section \<open>The manager, its cache and its environment\<close>

text \<open>
  \<^verbatim>\<open>Manager\<close> with what it talks to. \<open>configManager\<close> and \<open>cache\<close> are the
  fields of the Go struct. The wall clock is the sequence \<open>clock\<close> of the readings
  that successive calls of \<^verbatim>\<open>time.Now\<close> return, \<open>ticks\<close> of them consumed so far.
  The HTTP exchange of \<^verbatim>\<open>makeRequest\<close> (its retries included) is an oracle: the
  outcome for a URL is \<open>Inl\<close> the last error or \<open>Inr\<close> the decoded body, one
  oracle per result type, and \<open>requests\<close> logs the URLs asked for, oldest first.
\<close>

record Manager =
  configManager :: Config
  cache :: "string \<rightharpoonup> CacheEntry"
  clock :: "nat \<Rightarrow> int"
  ticks :: nat
  requests :: "string list"
  unspent_reply :: "string \<Rightarrow> string + EnhancedUTXOResponse list"
  balance_reply :: "string \<Rightarrow> string + EnhancedBalanceResponse"

definition time_Now :: "Manager \<Rightarrow> int \<times> Manager" where
  "time_Now m = (clock m (ticks m), m\<lparr>ticks := Suc (ticks m)\<rparr>)"

text \<open>
  \<^verbatim>\<open>Time.Sub\<close> of Go's library: the difference as a \<^verbatim>\<open>Duration\<close> (an
  \<^verbatim>\<open>int64\<close> of nanoseconds), the largest or smallest duration when the difference
  does not fit. \<^verbatim>\<open>time.Since(t)\<close> is \<^verbatim>\<open>time.Now().Sub(t)\<close>.
\<close>

definition time_Sub :: "int \<Rightarrow> int \<Rightarrow> int64" where
  "time_Sub t u =
     (if t - u < - (2 ^ 63) then word_of_int (- (2 ^ 63))
      else if 2 ^ 63 \<le> t - u then word_of_int (2 ^ 63 - 1)
      else word_of_int (t - u))"

definition time_Since :: "Manager \<Rightarrow> int \<Rightarrow> int64 \<times> Manager" where
  "time_Since m t = (let (now, m') = time_Now m in (time_Sub now t, m'))"

text \<open>\<^verbatim>\<open>time.Duration(utxoConfig.CacheExpiry)*time.Second\<close>\<close>

definition cacheTTL :: "UTXOConfig \<Rightarrow> int64" where
  "cacheTTL utxoConfig = word_of_int (CacheExpiry utxoConfig) * 1000000000"

text \<open>\<^verbatim>\<open>getFromCache\<close>: \<open>None\<close> is the \<^verbatim>\<open>nil\<close> entry.\<close>

definition getFromCache :: "Manager \<Rightarrow> string \<Rightarrow> CacheEntry option \<times> Manager" where
  "getFromCache m address =
     (let utxoConfig = cfg_UTXO (configManager m) in
      if \<not> EnableCaching utxoConfig then (None, m)
      else case cache m address of
             None \<Rightarrow> (None, m)
           | Some entry \<Rightarrow>
               (let (age, m') = time_Since m (Timestamp entry) in
                if cacheTTL utxoConfig <s age then (None, m') else (Some entry, m')))"

text \<open>\<^verbatim>\<open>setCache\<close>, \<^verbatim>\<open>ClearCache\<close>, \<^verbatim>\<open>ClearCacheForAddress\<close>\<close>

definition setCache :: "Manager \<Rightarrow> string \<Rightarrow> CacheEntry \<Rightarrow> Manager" where
  "setCache m address entry =
     (if \<not> EnableCaching (cfg_UTXO (configManager m)) then m
      else m\<lparr>cache := (cache m)(address \<mapsto> entry)\<rparr>)"

definition ClearCache :: "Manager \<Rightarrow> Manager" where
  "ClearCache m = m\<lparr>cache := Map.empty\<rparr>"

definition ClearCacheForAddress :: "Manager \<Rightarrow> string \<Rightarrow> Manager" where
  "ClearCacheForAddress m address = m\<lparr>cache := (cache m)(address := None)\<rparr>"

section \<open>Output discovery\<close>

text \<open>The \<^verbatim>\<open>types.UTXO\<close> literal that \<^verbatim>\<open>GetUTXOs\<close> builds from one response.\<close>

definition utxo_of_response :: "EnhancedUTXOResponse \<Rightarrow> UTXO" where
  "utxo_of_response resp =
     \<lparr>TxID = resp_TxID resp, Vout = resp_Vout resp, Value = resp_Value resp,
      ScriptPubKey = resp_ScriptPubKey resp, Address = resp_Address resp,
      Confirmations = resp_Confirmations resp, Height = resp_Height resp,
      IsNative = True, TokenID = [], TokenAmount = 0\<rparr>"

text \<open>
  The conversion loop of \<^verbatim>\<open>GetUTXOs\<close> over the responses, \<open>utxos\<close> the slice built
  so far: \<^verbatim>\<open>continue\<close> below the minimum confirmations, \<^verbatim>\<open>break\<close> at the limit.
\<close>

fun convert_loop :: "UTXOConfig \<Rightarrow> EnhancedUTXOResponse list \<Rightarrow> UTXO list \<Rightarrow> UTXO list" where
  "convert_loop utxoConfig [] utxos = utxos"
| "convert_loop utxoConfig (resp # rest) utxos =
     (if resp_Confirmations resp < MinConfirmations utxoConfig
      then convert_loop utxoConfig rest utxos
      else if MaxUTXOsPerQuery utxoConfig \<le> int (length utxos) then utxos
      else convert_loop utxoConfig rest (utxos @ [utxo_of_response resp]))"

definition unspent_url :: "Manager \<Rightarrow> string \<Rightarrow> string" where
  "unspent_url m address =
     RPCURL (cfg_Network (configManager m)) @ ''/address/'' @ address @ ''/unspent''"

definition balance_url :: "Manager \<Rightarrow> string \<Rightarrow> string" where
  "balance_url m address =
     RPCURL (cfg_Network (configManager m)) @ ''/address/'' @ address @ ''/balance''"

text \<open>\<^verbatim>\<open>GetUTXOs\<close>\<close>

definition GetUTXOs :: "Manager \<Rightarrow> string \<Rightarrow> (error + UTXO list) \<times> Manager" where
  "GetUTXOs m address =
     (case getFromCache m address of
        (Some cached, m1) \<Rightarrow> (Inr (UTXOs cached), m1)
      | (None, m1) \<Rightarrow>
          (let utxoConfig = cfg_UTXO (configManager m1);
               url = unspent_url m1 address;
               m2 = m1\<lparr>requests := requests m1 @ [url]\<rparr>
           in case unspent_reply m2 url of
                Inl err \<Rightarrow> (Inl (GetUTXOsFailed (RequestFailed err)), m2)
              | Inr utxoResponses \<Rightarrow>
                  (let utxos = convert_loop utxoConfig utxoResponses []
                   in if EnableCaching utxoConfig
                      then (let (now, m3) = time_Now m2
                            in (Inr utxos,
                                setCache m3 address
                                  \<lparr>UTXOs = utxos, Balance = None, Timestamp = now\<rparr>))
                      else (Inr utxos, m2))))"

section \<open>Balances\<close>

text \<open>
  The grouping loop of \<^verbatim>\<open>GetEnhancedBalance\<close> over the non-native outputs:
  \<open>tokens\<close> is the map \<^verbatim>\<open>nonNativeBalance.Tokens\<close> built so far.
\<close>

fun token_group_loop ::
  "UTXOConfig \<Rightarrow> UTXO list \<Rightarrow> (string \<rightharpoonup> TokenBalance) \<Rightarrow> (string \<rightharpoonup> TokenBalance)" where
  "token_group_loop utxoConfig [] tokens = tokens"
| "token_group_loop utxoConfig (utxo # rest) tokens =
     (if TokenID utxo \<noteq> []
      then (let tokenBalance =
                  (case tokens (TokenID utxo) of
                     None \<Rightarrow> \<lparr>tb_TokenID = TokenID utxo, tb_Confirmed = 0, tb_Unconfirmed = 0,
                              tb_Total = 0, tb_UTXOCount = 0\<rparr>
                   | Some tb \<Rightarrow> tb);
                counted = tokenBalance\<lparr>tb_UTXOCount := tb_UTXOCount tokenBalance + 1\<rparr>;
                split = (if MinConfirmations utxoConfig \<le> Confirmations utxo
                         then counted\<lparr>tb_Confirmed := tb_Confirmed counted + TokenAmount utxo\<rparr>
                         else counted\<lparr>tb_Unconfirmed := tb_Unconfirmed counted + TokenAmount utxo\<rparr>);
                summed = split\<lparr>tb_Total := tb_Total split + TokenAmount utxo\<rparr>
            in token_group_loop utxoConfig rest (tokens(TokenID utxo \<mapsto> summed)))
      else token_group_loop utxoConfig rest tokens)"

text \<open>The balance that \<^verbatim>\<open>GetEnhancedBalance\<close> computes from the two replies.\<close>

definition enhanced_balance :: "UTXOConfig \<Rightarrow> EnhancedBalanceResponse \<Rightarrow> UTXO list \<Rightarrow> EnhancedBalanceInfo" where
  "enhanced_balance utxoConfig balanceResp utxos =
     (let nativeUTXOs = filter IsNative utxos;
          nonNativeUTXOs = filter (\<lambda>utxo. \<not> IsNative utxo) utxos;
          nativeBalance =
            \<lparr>nb_Confirmed = bal_Confirmed balanceResp,
             nb_Unconfirmed = bal_Unconfirmed balanceResp,
             nb_Total = bal_Confirmed balanceResp + bal_Unconfirmed balanceResp,
             nb_UTXOCount = length nativeUTXOs\<rparr>;
          nonNativeBalance =
            \<lparr>nn_Tokens = token_group_loop utxoConfig nonNativeUTXOs Map.empty,
             nn_UTXOCount = length nonNativeUTXOs\<rparr>
      in \<lparr>eb_Native = nativeBalance, eb_NonNative = nonNativeBalance,
          eb_Total = nb_Total nativeBalance\<rparr>)"

text \<open>
  \<^verbatim>\<open>GetEnhancedBalance\<close>. The entry that \<^verbatim>\<open>getFromCache\<close> returns is a pointer
  into the map, so \<^verbatim>\<open>cached.Balance = enhancedBalance\<close> writes the entry stored
  under the address.
\<close>

definition GetEnhancedBalance :: "Manager \<Rightarrow> string \<Rightarrow> (error + EnhancedBalanceInfo) \<times> Manager" where
  "GetEnhancedBalance m address =
     (let (cached, m1) = getFromCache m address in
      case (case cached of None \<Rightarrow> None | Some entry \<Rightarrow> Balance entry) of
        Some balance \<Rightarrow> (Inr balance, m1)
      | None \<Rightarrow>
          (let utxoConfig = cfg_UTXO (configManager m1);
               balanceURL = balance_url m1 address;
               m2 = m1\<lparr>requests := requests m1 @ [balanceURL]\<rparr>
           in case balance_reply m2 balanceURL of
                Inl err \<Rightarrow> (Inl (GetBalanceFailed (RequestFailed err)), m2)
              | Inr balanceResp \<Rightarrow>
                  (case GetUTXOs m2 address of
                     (Inl err, m3) \<Rightarrow> (Inl (GetUTXOsForBalanceFailed err), m3)
                   | (Inr utxos, m3) \<Rightarrow>
                       (let enhancedBalance = enhanced_balance utxoConfig balanceResp utxos
                        in if EnableCaching utxoConfig
                           then (case getFromCache m3 address of
                                   (Some entry, m4) \<Rightarrow>
                                     (Inr enhancedBalance,
                                      m4\<lparr>cache := (cache m4)
                                             (address \<mapsto> entry\<lparr>Balance := Some enhancedBalance\<rparr>)\<rparr>)
                                 | (None, m4) \<Rightarrow>
                                     (let (now, m5) = time_Now m4
                                      in (Inr enhancedBalance,
                                          setCache m5 address
                                            \<lparr>UTXOs = [], Balance = Some enhancedBalance,
                                             Timestamp = now\<rparr>)))
                           else (Inr enhancedBalance, m3)))))"

section \<open>Coin selection\<close>

text \<open>
  The filter loop of \<^verbatim>\<open>SelectUTXOs\<close>: two tests per output, each with its own
  \<^verbatim>\<open>append\<close>.
\<close>

fun filter_loop :: "TransactionConfig \<Rightarrow> UTXO list \<Rightarrow> UTXO list \<Rightarrow> UTXO list" where
  "filter_loop txConfig [] availableUTXOs = availableUTXOs"
| "filter_loop txConfig (utxo # rest) availableUTXOs =
     (let a1 = (if IsNative utxo \<and> IncludeNativeUTXOs txConfig
                then availableUTXOs @ [utxo] else availableUTXOs);
          a2 = (if \<not> IsNative utxo \<and> IncludeNonNativeUTXOs txConfig
                then a1 @ [utxo] else a1)
      in filter_loop txConfig rest a2)"

text \<open>
  \<^verbatim>\<open>10 + len(selectedUTXOs)*148 + 34 + 34\<close> converted to \<^verbatim>\<open>int64\<close> and multiplied
  by the fee rate, for \<open>n\<close> the length of the slice. The size is an \<^verbatim>\<open>int\<close>,
  64 bits wide on the platforms where the conversion keeps it.
\<close>

definition fee_for :: "nat \<Rightarrow> int64 \<Rightarrow> int64" where
  "fee_for n feeRate = word_of_nat (10 + n * 148 + 34 + 34) * feeRate"

text \<open>
  The selection loop of \<^verbatim>\<open>SelectUTXOs\<close> over the sorted outputs that remain:
  \<open>Inr\<close> is the \<^verbatim>\<open>return\<close> inside the loop, \<open>Inl\<close> the value of
  \<^verbatim>\<open>totalValue\<close> when the loop runs out.
\<close>

fun select_loop :: "int64 \<Rightarrow> int64 \<Rightarrow> UTXO list \<Rightarrow> UTXO list \<Rightarrow> int64 \<Rightarrow> int64 + UTXO list \<times> int64" where
  "select_loop amount feeRate [] selectedUTXOs totalValue = Inl totalValue"
| "select_loop amount feeRate (utxo # rest) selectedUTXOs totalValue =
     (let selectedUTXOs' = selectedUTXOs @ [utxo];
          totalValue' = totalValue + Value utxo;
          currentFee = fee_for (length selectedUTXOs') feeRate
      in if amount + currentFee \<le>s totalValue' then Inr (selectedUTXOs', currentFee)
         else select_loop amount feeRate rest selectedUTXOs' totalValue')"

text \<open>\<^verbatim>\<open>SelectUTXOs\<close> after its call of \<^verbatim>\<open>GetUTXOs\<close> has returned \<open>allUTXOs\<close>.\<close>

definition select_from :: "TransactionConfig \<Rightarrow> string \<Rightarrow> UTXO list \<Rightarrow> int64 \<Rightarrow> int64 \<Rightarrow> error + UTXO list \<times> int64" where
  "select_from txConfig address allUTXOs amount feeRate =
     (if length allUTXOs = 0 then Inl (NoUTXOsAvailable address)
      else let availableUTXOs = filter_loop txConfig allUTXOs [] in
      if length availableUTXOs = 0 then Inl NoSuitableUTXOs
      else let sortedUTXOs = sortUTXOsByValue availableUTXOs;
               estimatedFee = fee_for (length sortedUTXOs) feeRate;
               feeRate' = (if feeRate <s MinFeeRate txConfig then DefaultFeeRate txConfig
                           else feeRate) in
      if MaxFeeRate txConfig <s feeRate'
      then Inl (FeeRateExceedsMaximumAllowed feeRate' (MaxFeeRate txConfig))
      else case select_loop amount feeRate' sortedUTXOs [] 0 of
             Inr selected \<Rightarrow> Inr selected
           | Inl totalValue \<Rightarrow> Inl (InsufficientFunds (amount + estimatedFee) totalValue))"

text \<open>\<^verbatim>\<open>SelectUTXOs\<close>\<close>

definition SelectUTXOs :: "Manager \<Rightarrow> string \<Rightarrow> int64 \<Rightarrow> int64 \<Rightarrow> (error + UTXO list \<times> int64) \<times> Manager" where
  "SelectUTXOs m address amount feeRate =
     (let txConfig = cfg_Transaction (configManager m) in
      case GetUTXOs m address of
        (Inl err, m') \<Rightarrow> (Inl err, m')
      | (Inr allUTXOs, m') \<Rightarrow> (select_from txConfig address allUTXOs amount feeRate, m'))"

text \<open>
  The loops of \<^verbatim>\<open>SelectUTXOsForTokenTransfer\<close>: the split into token and native
  outputs, and the two accumulations that \<^verbatim>\<open>break\<close> once the running total of the
  field \<open>key\<close> reaches the target (the token amount, then the fee).
\<close>

fun split_loop :: "string \<Rightarrow> UTXO list \<Rightarrow> UTXO list \<Rightarrow> UTXO list \<Rightarrow> UTXO list \<times> UTXO list" where
  "split_loop tokenID [] tokenUTXOs nativeUTXOs = (tokenUTXOs, nativeUTXOs)"
| "split_loop tokenID (utxo # rest) tokenUTXOs nativeUTXOs =
     (if IsNative utxo then split_loop tokenID rest tokenUTXOs (nativeUTXOs @ [utxo])
      else if TokenID utxo = tokenID then split_loop tokenID rest (tokenUTXOs @ [utxo]) nativeUTXOs
      else split_loop tokenID rest tokenUTXOs nativeUTXOs)"

fun cover_loop :: "(UTXO \<Rightarrow> int64) \<Rightarrow> int64 \<Rightarrow> UTXO list \<Rightarrow> UTXO list \<Rightarrow> int64 \<Rightarrow> UTXO list \<times> int64" where
  "cover_loop key target [] selected running = (selected, running)"
| "cover_loop key target (utxo # rest) selected running =
     (let selected' = selected @ [utxo];
          running' = running + key utxo
      in if target \<le>s running' then (selected', running')
         else cover_loop key target rest selected' running')"

text \<open>\<^verbatim>\<open>SelectUTXOsForTokenTransfer\<close> after its call of \<^verbatim>\<open>GetUTXOs\<close>.\<close>

definition select_token_from :: "UTXO list \<Rightarrow> string \<Rightarrow> int64 \<Rightarrow> int64 \<Rightarrow> error + UTXO list \<times> int64" where
  "select_token_from allUTXOs tokenID amount feeRate =
     (let (tokenUTXOs, nativeUTXOs) = split_loop tokenID allUTXOs [] [];
          totalTokenAmount = foldl (\<lambda>total utxo. total + TokenAmount utxo) 0 tokenUTXOs in
      if totalTokenAmount <s amount then Inl (InsufficientTokenBalance amount totalTokenAmount)
      else let sortedTokenUTXOs = sortUTXOsByTokenAmount tokenUTXOs;
               (selectedTokenUTXOs, selectedTokenAmount) =
                  cover_loop TokenAmount amount sortedTokenUTXOs [] 0;
               estimatedFee = fee_for (length selectedTokenUTXOs) feeRate;
               sortedNativeUTXOs = sortUTXOsByValue nativeUTXOs;
               (selectedNativeUTXOs, totalNativeValue) =
                  cover_loop Value estimatedFee sortedNativeUTXOs [] 0 in
      if totalNativeValue <s estimatedFee
      then Inl (InsufficientNativeForFees estimatedFee totalNativeValue)
      else Inr (selectedTokenUTXOs @ selectedNativeUTXOs, estimatedFee))"

definition SelectUTXOsForTokenTransfer ::
  "Manager \<Rightarrow> string \<Rightarrow> string \<Rightarrow> int64 \<Rightarrow> int64 \<Rightarrow> (error + UTXO list \<times> int64) \<times> Manager" where
  "SelectUTXOsForTokenTransfer m address tokenID amount feeRate =
     (case GetUTXOs m address of
        (Inl err, m') \<Rightarrow> (Inl err, m')
      | (Inr allUTXOs, m') \<Rightarrow> (select_token_from allUTXOs tokenID amount feeRate, m'))"

section \<open>Change computation\<close>

text \<open>
  \<^verbatim>\<open>CalculateChange\<close>: the loop \<^verbatim>\<open>totalInput += utxo.Value\<close> is a left fold; the
  subtraction wraps; the dust test is the signed \<^verbatim>\<open>change > txConfig.DustLimit\<close>.
\<close>

definition CalculateChange :: "TransactionConfig \<Rightarrow> UTXO list \<Rightarrow> int64 \<Rightarrow> int64 \<Rightarrow> int64 \<times> bool" where
  "CalculateChange txConfig selectedUTXOs amount fee =
     (let totalInput = foldl (\<lambda>total utxo. total + Value utxo) 0 selectedUTXOs;
          change = totalInput - amount - fee
      in if DustLimit txConfig <s change then (change, True) else (0, False))"

section \<open>The transaction builder\<close>

text \<open>
  \<^verbatim>\<open>types.TokenTransfer\<close>, \<^verbatim>\<open>types.DataOutput\<close> and \<^verbatim>\<open>types.TransactionParams\<close>;
  the transaction of the wire library, with scripts and hashes as byte strings.
\<close>

record TokenTransfer =
  tt_TokenID :: string
  tt_To :: string
  tt_Amount :: int64

record DataOutput =
  Data :: string

record TransactionParams =
  From :: string
  To :: string
  Amount :: int64
  FeeRate :: int64
  PrivateKey :: string
  p_IncludeNativeUTXOs :: bool
  p_IncludeNonNativeUTXOs :: bool
  TokenTransfers :: "TokenTransfer list"
  DataOutputs :: "DataOutput list"

record TxOut =
  out_Value :: int64
  PkScript :: string

record TxIn =
  PreviousOutPoint :: "string \<times> 32 word"
  SignatureScript :: string

record MsgTx =
  Version :: "32 word"
  tx_In :: "TxIn list"
  tx_Out :: "TxOut list"
  LockTime :: "32 word"

text \<open>
  The calls into other packages, as oracles that return \<open>Inl\<close> the error text or
  \<open>Inr\<close> the value: \<^verbatim>\<open>getSenderInfo\<close> (mnemonic validation, key derivation and WIF
  decoding for a credential and the testnet flag, giving the address and the key),
  \<^verbatim>\<open>btcutil.DecodeAddress\<close>, \<^verbatim>\<open>txscript.PayToAddrScript\<close>, the script builder
  \<^verbatim>\<open>AddOp(OP_RETURN).AddData(data).Script()\<close>, the two \<^verbatim>\<open>hex\<close> functions, the
  \<^verbatim>\<open>%d\<close> format of an \<^verbatim>\<open>int64\<close>, \<^verbatim>\<open>chainhash.NewHashFromStr\<close> and
  \<^verbatim>\<open>txscript.SignatureScript\<close>.
\<close>

record Libraries =
  lib_getSenderInfo :: "string \<Rightarrow> bool \<Rightarrow> string + string \<times> string"
  lib_DecodeAddress :: "string \<Rightarrow> bool \<Rightarrow> string + string"
  lib_PayToAddrScript :: "string \<Rightarrow> string + string"
  lib_OpReturnScript :: "string \<Rightarrow> string + string"
  lib_hex_EncodeToString :: "string \<Rightarrow> string"
  lib_hex_DecodeString :: "string \<Rightarrow> string + string"
  lib_FormatInt :: "int64 \<Rightarrow> string"
  lib_NewHashFromStr :: "string \<Rightarrow> string + string"
  lib_SignatureScript :: "MsgTx \<Rightarrow> nat \<Rightarrow> string \<Rightarrow> string \<Rightarrow> string + string"

text \<open>
  \<^verbatim>\<open>validateParams\<close>. The parameters are passed by pointer and the fee rate may be
  overwritten, so the result is the error, if any, and the parameters as the call
  leaves them. The loop over the token transfers carries the index \<open>i\<close>.
\<close>

fun validate_transfers :: "nat \<Rightarrow> TokenTransfer list \<Rightarrow> error option" where
  "validate_transfers i [] = None"
| "validate_transfers i (transfer # rest) =
     (if tt_TokenID transfer = [] then Some (TokenIDRequired i)
      else if tt_To transfer = [] then Some (TokenRecipientRequired i)
      else if tt_Amount transfer \<le>s 0 then Some (TokenAmountMustBePositive i)
      else validate_transfers (i + 1) rest)"

definition validateParams :: "TransactionConfig \<Rightarrow> TransactionParams \<Rightarrow> error option \<times> TransactionParams" where
  "validateParams txConfig params =
     (if From params = [] then (Some SenderAddressRequired, params)
      else if To params = [] then (Some RecipientAddressRequired, params)
      else if Amount params \<le>s 0 then (Some AmountMustBePositive, params)
      else if PrivateKey params = [] then (Some PrivateKeyRequired, params)
      else if FeeRate params \<le>s 0
      then (let params' = params\<lparr>FeeRate := DefaultFeeRate txConfig\<rparr>
            in (validate_transfers 0 (TokenTransfers params'), params'))
      else if FeeRate params <s MinFeeRate txConfig
      then (Some (FeeRateBelowMinimum (FeeRate params) (MinFeeRate txConfig)), params)
      else if MaxFeeRate txConfig <s FeeRate params
      then (Some (FeeRateExceedsMaximum (FeeRate params) (MaxFeeRate txConfig)), params)
      else (validate_transfers 0 (TokenTransfers params), params))"

text \<open>\<^verbatim>\<open>selectUTXOsForTokenTransfer\<close> of the builder\<close>

definition builder_selectUTXOsForTokenTransfer ::
  "Manager \<Rightarrow> TransactionParams \<Rightarrow> (error + UTXO list \<times> int64) \<times> Manager" where
  "builder_selectUTXOsForTokenTransfer m params =
     (case TokenTransfers params of
        [] \<Rightarrow> (Inl NoTokenTransfers, m)
      | firstTransfer # rest \<Rightarrow>
          SelectUTXOsForTokenTransfer m (From params) (tt_TokenID firstTransfer)
            (tt_Amount firstTransfer) (FeeRate params))"

text \<open>
  \<^verbatim>\<open>addOutputs\<close>: the two loops that append one data-carrying output of value 0
  per token transfer and per data payload, then the function itself. \<open>outs\<close> is the
  output list of the transaction so far.
\<close>

fun token_outputs_loop :: "Libraries \<Rightarrow> TokenTransfer list \<Rightarrow> TxOut list \<Rightarrow> error + TxOut list" where
  "token_outputs_loop libs [] outs = Inr outs"
| "token_outputs_loop libs (transfer # rest) outs =
     (let tokenData = ''TOKEN_TRANSFER:'' @ tt_TokenID transfer @ '':'' @ tt_To transfer @ '':''
                        @ lib_FormatInt libs (tt_Amount transfer);
          tokenDataHex = lib_hex_EncodeToString libs tokenData
      in case lib_OpReturnScript libs tokenDataHex of
           Inl err \<Rightarrow> Inl (TokenTransferScriptFailed err)
         | Inr opReturnScript \<Rightarrow>
             token_outputs_loop libs rest (outs @ [\<lparr>out_Value = 0, PkScript = opReturnScript\<rparr>]))"

fun data_outputs_loop :: "Libraries \<Rightarrow> DataOutput list \<Rightarrow> TxOut list \<Rightarrow> error + TxOut list" where
  "data_outputs_loop libs [] outs = Inr outs"
| "data_outputs_loop libs (dataOutput # rest) outs =
     (case lib_hex_DecodeString libs (Data dataOutput) of
        Inl err \<Rightarrow> Inl (InvalidDataOutputHex err)
      | Inr data \<Rightarrow>
          (case lib_OpReturnScript libs data of
             Inl err \<Rightarrow> Inl (DataOutputScriptFailed err)
           | Inr opReturnScript \<Rightarrow>
               data_outputs_loop libs rest (outs @ [\<lparr>out_Value = 0, PkScript = opReturnScript\<rparr>])))"

definition addOutputs ::
  "Libraries \<Rightarrow> Config \<Rightarrow> MsgTx \<Rightarrow> TransactionParams \<Rightarrow> UTXO list \<Rightarrow> int64 \<Rightarrow> error + MsgTx" where
  "addOutputs libs config tx params selectedUTXOs fee =
     (let network = IsTestnet (cfg_Network config) in
      case lib_DecodeAddress libs (To params) network of
        Inl err \<Rightarrow> Inl (InvalidRecipientAddress err)
      | Inr recipientAddr \<Rightarrow>
      case lib_PayToAddrScript libs recipientAddr of
        Inl err \<Rightarrow> Inl (RecipientScriptFailed err)
      | Inr recipientScript \<Rightarrow>
      case token_outputs_loop libs (TokenTransfers params)
             (tx_Out tx @ [\<lparr>out_Value = Amount params, PkScript = recipientScript\<rparr>]) of
        Inl err \<Rightarrow> Inl err
      | Inr outs1 \<Rightarrow>
      case data_outputs_loop libs (DataOutputs params) outs1 of
        Inl err \<Rightarrow> Inl err
      | Inr outs2 \<Rightarrow>
      (let (change, hasChange) =
             CalculateChange (cfg_Transaction config) selectedUTXOs (Amount params) fee
       in if hasChange
          then (case lib_DecodeAddress libs (From params) network of
                  Inl err \<Rightarrow> Inl (InvalidSenderAddress err)
                | Inr senderAddr \<Rightarrow>
                    (case lib_PayToAddrScript libs senderAddr of
                       Inl err \<Rightarrow> Inl (ChangeScriptFailed err)
                     | Inr changeScript \<Rightarrow>
                         Inr (tx\<lparr>tx_Out := outs2 @ [\<lparr>out_Value = change, PkScript = changeScript\<rparr>]\<rparr>)))
          else Inr (tx\<lparr>tx_Out := outs2\<rparr>)))"

text \<open>The input loop of \<^verbatim>\<open>BuildTransaction\<close> and \<^verbatim>\<open>signTransaction\<close>.\<close>

fun add_inputs_loop :: "Libraries \<Rightarrow> UTXO list \<Rightarrow> MsgTx \<Rightarrow> error + MsgTx" where
  "add_inputs_loop libs [] tx = Inr tx"
| "add_inputs_loop libs (utxo # rest) tx =
     (case lib_NewHashFromStr libs (TxID utxo) of
        Inl err \<Rightarrow> Inl (InvalidUTXOHash err)
      | Inr txHash \<Rightarrow>
          add_inputs_loop libs rest
            (tx\<lparr>tx_In := tx_In tx @ [\<lparr>PreviousOutPoint = (txHash, Vout utxo), SignatureScript = []\<rparr>]\<rparr>))"

fun sign_loop :: "Libraries \<Rightarrow> bool \<Rightarrow> string \<Rightarrow> nat \<Rightarrow> UTXO list \<Rightarrow> MsgTx \<Rightarrow> error + MsgTx" where
  "sign_loop libs network keyPair i [] tx = Inr tx"
| "sign_loop libs network keyPair i (utxo # rest) tx =
     (case lib_DecodeAddress libs (Address utxo) network of
        Inl err \<Rightarrow> Inl (DecodeAddressFailed err)
      | Inr senderAddr \<Rightarrow>
      case lib_PayToAddrScript libs senderAddr of
        Inl err \<Rightarrow> Inl (CreateScriptFailed err)
      | Inr script \<Rightarrow>
      case lib_SignatureScript libs tx i script keyPair of
        Inl err \<Rightarrow> Inl (SignatureScriptFailed err)
      | Inr sigScript \<Rightarrow>
          sign_loop libs network keyPair (i + 1) rest
            (tx\<lparr>tx_In := (tx_In tx)[i := (tx_In tx ! i)\<lparr>SignatureScript := sigScript\<rparr>]\<rparr>))"

definition signTransaction :: "Libraries \<Rightarrow> Config \<Rightarrow> MsgTx \<Rightarrow> UTXO list \<Rightarrow> string \<Rightarrow> error + MsgTx" where
  "signTransaction libs config tx utxos keyPair =
     sign_loop libs (IsTestnet (cfg_Network config)) keyPair 0 utxos tx"

text \<open>
  \<^verbatim>\<open>BuildTransaction\<close>. The result is the transaction or the error, the parameters
  as the call leaves them, and the manager of the builder after the call.
  \<^verbatim>\<open>wire.NewMsgTx(wire.TxVersion)\<close> is the empty transaction of version 1.
\<close>

definition BuildTransaction ::
  "Libraries \<Rightarrow> Manager \<Rightarrow> TransactionParams \<Rightarrow> (error + MsgTx) \<times> TransactionParams \<times> Manager" where
  "BuildTransaction libs m params0 =
     (let config = configManager m in
      case validateParams (cfg_Transaction config) params0 of
        (Some err, params) \<Rightarrow> (Inl err, params, m)
      | (None, params) \<Rightarrow>
      case lib_getSenderInfo libs (PrivateKey params) (IsTestnet (cfg_Network config)) of
        Inl err \<Rightarrow> (Inl (SenderInfoFailed err), params, m)
      | Inr (senderAddress, keyPair) \<Rightarrow>
      if senderAddress \<noteq> From params
      then (Inl (SenderAddressMismatch (From params) senderAddress), params, m)
      else
      (let txConfig = cfg_Transaction config;
           params1 = (if length (TokenTransfers params) > 0 then params
                      else if FeeRate params \<le>s 0
                      then params\<lparr>FeeRate := DefaultFeeRate txConfig\<rparr> else params);
           (selection, m') =
             (if length (TokenTransfers params) > 0
              then (case builder_selectUTXOsForTokenTransfer m params of
                      (Inl err, m') \<Rightarrow> (Inl (SelectForTokenTransferFailed err), m')
                    | (Inr r, m') \<Rightarrow> (Inr r, m'))
              else (case SelectUTXOs m (From params1) (Amount params1) (FeeRate params1) of
                      (Inl err, m') \<Rightarrow> (Inl (SelectFailed err), m')
                    | (Inr r, m') \<Rightarrow> (Inr r, m')))
       in case selection of
            Inl err \<Rightarrow> (Inl err, params1, m')
          | Inr (selectedUTXOs, fee) \<Rightarrow>
          case add_inputs_loop libs selectedUTXOs
                 \<lparr>Version = 1, tx_In = [], tx_Out = [], LockTime = 0\<rparr> of
            Inl err \<Rightarrow> (Inl err, params1, m')
          | Inr tx \<Rightarrow>
          case addOutputs libs config tx params1 selectedUTXOs fee of
            Inl err \<Rightarrow> (Inl (AddOutputsFailed err), params1, m')
          | Inr tx1 \<Rightarrow>
          case signTransaction libs config tx1 selectedUTXOs keyPair of
            Inl err \<Rightarrow> (Inl (SignFailed err), params1, m')
          | Inr tx2 \<Rightarrow> (Inr tx2, params1, m')))"

section \<open>Quantities of the specification and concrete inputs\<close>

text \<open>The total value \<open>V\<close> of a list of outputs, in \<^verbatim>\<open>int64\<close> arithmetic.\<close>

definition totalValue :: "UTXO list \<Rightarrow> int64" where
  "totalValue utxos = sum_list (map Value utxos)"

text \<open>
  The words of the specification for the native selector: the candidates are the
  outputs that the inclusion flags admit; the fee rate in effect is the configured
  default when the supplied rate is below the minimum; a prefix of length \<open>k\<close> of the
  sorted candidates is funded when its value covers the amount plus the fee for
  \<open>k\<close> inputs; \<open>spec_first_funded\<close> is the length of the first funded prefix, if any.
\<close>

definition candidates :: "TransactionConfig \<Rightarrow> UTXO list \<Rightarrow> UTXO list" where
  "candidates txConfig allUTXOs =
     filter (\<lambda>utxo. if IsNative utxo then IncludeNativeUTXOs txConfig
                     else IncludeNonNativeUTXOs txConfig) allUTXOs"

definition effective_rate :: "TransactionConfig \<Rightarrow> int64 \<Rightarrow> int64" where
  "effective_rate txConfig feeRate =
     (if feeRate <s MinFeeRate txConfig then DefaultFeeRate txConfig else feeRate)"

definition funded :: "int64 \<Rightarrow> int64 \<Rightarrow> UTXO list \<Rightarrow> nat \<Rightarrow> bool" where
  "funded amount feeRate sortedUTXOs k \<longleftrightarrow>
     amount + fee_for k feeRate \<le>s totalValue (take k sortedUTXOs)"

definition spec_first_funded :: "int64 \<Rightarrow> int64 \<Rightarrow> UTXO list \<Rightarrow> nat option" where
  "spec_first_funded amount feeRate sortedUTXOs =
     find (funded amount feeRate sortedUTXOs) [Suc 0..<Suc (length sortedUTXOs)]"

text \<open>
  The same quantities over the integers: the total value of a list of outputs and the
  fee for \<open>n\<close> inputs at a rate, with no wrap-around.
\<close>

definition int_total :: "UTXO list \<Rightarrow> int" where
  "int_total utxos = sum_list (map (\<lambda>utxo. sint (Value utxo)) utxos)"

definition int_fee :: "nat \<Rightarrow> int64 \<Rightarrow> int" where
  "int_fee n feeRate = (10 + int n * 148 + 34 + 34) * sint feeRate"

text \<open>
  One iteration of the inner loop of the sort at index \<open>j\<close>, the order the sort
  establishes (no value is smaller than a later one, in the signed order), and the
  invariant of its outer loop after \<open>i\<close> passes: the last \<open>i\<close> elements are in
  their final order and none of them exceeds an element before them.
\<close>

definition bubble_step :: "('a \<Rightarrow> int64) \<Rightarrow> 'a list \<Rightarrow> nat \<Rightarrow> 'a list" where
  "bubble_step key xs j = (if key (xs ! j) <s key (xs ! (j + 1)) then swap_adjacent xs j else xs)"

definition sorted_desc :: "('a \<Rightarrow> int64) \<Rightarrow> 'a list \<Rightarrow> bool" where
  "sorted_desc key xs = sorted_wrt (\<lambda>a b. key b \<le>s key a) xs"

definition outer_inv :: "('a \<Rightarrow> int64) \<Rightarrow> nat \<Rightarrow> 'a list \<Rightarrow> bool" where
  "outer_inv key i xs \<longleftrightarrow>
     i \<le> length xs \<and> sorted_desc key (drop (length xs - i) xs)
     \<and> (\<forall>a\<in>set (take (length xs - i) xs). \<forall>b\<in>set (drop (length xs - i) xs). key b \<le>s key a)"

text \<open>A confirmed native output of a given value, for the concrete inputs below.\<close>

definition native_utxo :: "string \<Rightarrow> int64 \<Rightarrow> UTXO" where
  "native_utxo txid v =
     \<lparr>TxID = txid, Vout = 0, Value = v, ScriptPubKey = ''76a914'', Address = ''sender'',
      Confirmations = 6, Height = 100, IsNative = True, TokenID = [], TokenAmount = 0\<rparr>"

text \<open>
  A response of the indexing service for an output of a given value and confirmation
  count, and a manager that has not been used yet: an empty cache, a clock that
  advances one second per reading, and a service that answers every request for
  outputs with \<open>responses\<close>.
\<close>

definition response :: "string \<Rightarrow> int64 \<Rightarrow> int \<Rightarrow> EnhancedUTXOResponse" where
  "response txid v confirmations =
     \<lparr>resp_TxID = txid, resp_Vout = 0, resp_Value = v, resp_ScriptPubKey = ''76a914'',
      resp_Address = ''sender'', resp_Confirmations = confirmations, resp_Height = 100\<rparr>"

definition fresh_manager :: "Config \<Rightarrow> EnhancedUTXOResponse list \<Rightarrow> Manager" where
  "fresh_manager config responses =
     \<lparr>configManager = config, cache = Map.empty, clock = (\<lambda>n. 1000000000 * int n), ticks = 0,
      requests = [], unspent_reply = (\<lambda>url. Inr responses),
      balance_reply = (\<lambda>url. Inr \<lparr>bal_Confirmed = 0, bal_Unconfirmed = 0\<rparr>)\<rparr>"

text \<open>
  An output tagged native as \<^verbatim>\<open>GetUTXOs\<close> tags it, and the property of a manager
  that every output held in its cache is tagged so.
\<close>

definition native_tagged :: "UTXO \<Rightarrow> bool" where
  "native_tagged utxo \<longleftrightarrow> IsNative utxo \<and> TokenID utxo = [] \<and> TokenAmount utxo = 0"

definition cache_native :: "Manager \<Rightarrow> bool" where
  "cache_native m \<longleftrightarrow> (\<forall>address entry. cache m address = Some entry \<longrightarrow> list_all native_tagged (UTXOs entry))"

text \<open>
  A manager whose cache holds one entry, for the address \<open>sender\<close>, and whose clock
  starts at \<open>start\<close> and advances one second per reading.
\<close>

definition cached_manager :: "Config \<Rightarrow> CacheEntry \<Rightarrow> int \<Rightarrow> Manager" where
  "cached_manager config entry start =
     (fresh_manager config [])
       \<lparr>cache := [''sender'' \<mapsto> entry], clock := (\<lambda>n. start + 1000000000 * int n)\<rparr>"

text \<open>A cache entry captured at the instant \<open>t\<close>: one output, no balance.\<close>

definition entry_at :: "int \<Rightarrow> CacheEntry" where
  "entry_at t = \<lparr>UTXOs = [native_utxo ''a'' 1000], Balance = None, Timestamp = t\<rparr>"

text \<open>
  A token output, and a cache entry that holds one token output and one native
  output, captured at instant 0.
\<close>

definition token_utxo :: "string \<Rightarrow> string \<Rightarrow> int64 \<Rightarrow> UTXO" where
  "token_utxo txid tokenID tokenAmount =
     \<lparr>TxID = txid, Vout = 0, Value = 1, ScriptPubKey = ''76a914'', Address = ''sender'',
      Confirmations = 6, Height = 100, IsNative = False, TokenID = tokenID,
      TokenAmount = tokenAmount\<rparr>"

definition token_entry :: CacheEntry where
  "token_entry =
     \<lparr>UTXOs = [token_utxo ''t'' ''tok'' 10, native_utxo ''a'' 1000000], Balance = None,
      Timestamp = 0\<rparr>"

section \<open>Arithmetic of signed 64-bit words\<close>

lemma sint_sub3:
  "sint (x - y - z :: int64) = signed_take_bit 63 (sint x - sint y - sint z)"
proof -
  have "sint (x - y - z) = signed_take_bit 63 (signed_take_bit 63 (sint x - sint y) - sint z)"
    by (simp add: sint_word_ariths)
  also have "\<dots> = signed_take_bit 63 (sint x - sint y - sint z)"
    by (metis signed_take_bit_diff signed_take_bit_signed_take_bit min.idem)
  finally show ?thesis .
qed

lemma foldl_Value_totalValue:
  "foldl (\<lambda>total utxo. total + Value utxo) a utxos = a + totalValue utxos"
  unfolding totalValue_def by (induction utxos arbitrary: a) (simp_all add: add.assoc)

section \<open>The sort returns a descending permutation\<close>

lemma mset_swap_adjacent: "Suc j < length xs \<Longrightarrow> mset (swap_adjacent xs j) = mset xs"
  unfolding swap_adjacent_def by (simp add: mset_swap)

lemma nth_swap_adjacent:
  "Suc j < length xs \<Longrightarrow> k < length xs \<Longrightarrow>
   swap_adjacent xs j ! k = (if k = j then xs ! Suc j else if k = Suc j then xs ! j else xs ! k)"
  unfolding swap_adjacent_def by (simp add: nth_list_update)

lemma bubble_inner_unfold:
  "bubble_inner key i j xs =
     (if Suc (j + i) < length xs then bubble_inner key i (Suc j) (bubble_step key xs j) else xs)"
  by (subst bubble_inner.simps) (auto simp: bubble_step_def)

lemma length_bubble_step: "length (bubble_step key xs j) = length xs"
  by (simp add: bubble_step_def length_swap_adjacent)

lemma mset_bubble_step: "Suc j < length xs \<Longrightarrow> mset (bubble_step key xs j) = mset xs"
  by (simp add: bubble_step_def mset_swap_adjacent)

lemma mset_bubble_inner: "mset (bubble_inner key i j xs) = mset xs"
proof (induction key i j xs rule: bubble_inner.induct)
  case (1 key i j xs)
  show ?case
  proof (cases "Suc (j + i) < length xs")
    case True
    then have "int j < int (length xs) - int i - 1" by simp
    from "1.IH" [OF this] have "mset (bubble_inner key i (j + 1) (bubble_step key xs j)) = mset (bubble_step key xs j)"
      by (simp add: bubble_step_def)
    with True show ?thesis
      by (subst bubble_inner_unfold) (simp add: mset_bubble_step)
  next
    case False
    then show ?thesis by (subst bubble_inner_unfold) simp
  qed
qed

lemma mset_bubble_outer: "mset (bubble_outer key i xs) = mset xs"
proof (induction key i xs rule: bubble_outer.induct)
  case (1 key i xs)
  show ?case
  proof (cases "int i < int (length xs) - 1")
    case True
    with "1.IH" show ?thesis
      by (subst bubble_outer.simps) (simp add: mset_bubble_inner)
  next
    case False
    then show ?thesis by (subst bubble_outer.simps) simp
  qed
qed


lemma nth_bubble_step:
  "Suc j < length xs \<Longrightarrow> k < length xs \<Longrightarrow> k \<noteq> j \<Longrightarrow> k \<noteq> Suc j \<Longrightarrow>
   bubble_step key xs j ! k = xs ! k"
  by (simp add: bubble_step_def nth_swap_adjacent)

lemma bubble_step_pair:
  "Suc j < length xs \<Longrightarrow>
   key (bubble_step key xs j ! Suc j) \<le>s key (bubble_step key xs j ! j)
   \<and> (bubble_step key xs j ! Suc j = xs ! j \<or> bubble_step key xs j ! Suc j = xs ! Suc j)
   \<and> key (bubble_step key xs j ! Suc j) \<le>s key (xs ! j)"
  by (auto simp: bubble_step_def nth_swap_adjacent word_sle_eq word_sless_alt)

lemma bubble_inner_suffix:
  "length xs - i \<le> k \<Longrightarrow> k < length xs \<Longrightarrow> bubble_inner key i j xs ! k = xs ! k"
proof (induction key i j xs rule: bubble_inner.induct)
  case (1 key i j xs)
  show ?case
  proof (cases "Suc (j + i) < length xs")
    case True
    then have c: "int j < int (length xs) - int i - 1" by simp
    have "bubble_inner key i (j + 1) (bubble_step key xs j) ! k = bubble_step key xs j ! k"
      using "1.IH" [OF c] "1.prems" by (simp add: bubble_step_def length_swap_adjacent)
    also have "\<dots> = xs ! k"
      using True "1.prems" by (intro nth_bubble_step) auto
    finally show ?thesis using True by (subst bubble_inner_unfold) simp
  next
    case False
    then show ?thesis by (subst bubble_inner_unfold) simp
  qed
qed

lemma bubble_inner_min:
  "j + i < length xs \<Longrightarrow> (\<forall>k\<le>j. key (xs ! j) \<le>s key (xs ! k)) \<Longrightarrow>
   (\<forall>k < length xs - i. key (bubble_inner key i j xs ! (length xs - i - 1)) \<le>s key (bubble_inner key i j xs ! k))"
proof (induction key i j xs rule: bubble_inner.induct)
  case (1 key i j xs)
  show ?case
  proof (cases "Suc (j + i) < length xs")
    case True
    then have c: "int j < int (length xs) - int i - 1" by simp
    let ?ys = "bubble_step key xs j"
    have len: "length ?ys = length xs" by (simp add: length_bubble_step)
    have sj: "Suc j < length xs" using True by simp
    have m: "\<forall>k\<le>Suc j. key (?ys ! Suc j) \<le>s key (?ys ! k)"
    proof (intro allI impI)
      fix k assume "k \<le> Suc j"
      then consider "k = Suc j" | "k = j" | "k < j" by linarith
      then show "key (?ys ! Suc j) \<le>s key (?ys ! k)"
      proof cases
        case 1 then show ?thesis by simp
      next
        case 2 then show ?thesis using bubble_step_pair [OF sj, of key] by simp
      next
        case 3
        then have "?ys ! k = xs ! k" using sj by (intro nth_bubble_step) auto
        moreover have "key (xs ! j) \<le>s key (xs ! k)" using "1.prems"(2) 3 by simp
        moreover have "key (?ys ! Suc j) \<le>s key (xs ! j)" using bubble_step_pair [OF sj, of key] by simp
        ultimately show ?thesis by (simp add: word_sle_eq)
      qed
    qed
    have "\<forall>k < length ?ys - i. key (bubble_inner key i (j + 1) ?ys ! (length ?ys - i - 1))
            \<le>s key (bubble_inner key i (j + 1) ?ys ! k)"
      using "1.IH" [OF c] True m len by (simp add: bubble_step_def)
    then show ?thesis using True len by (subst (1 2) bubble_inner_unfold) simp
  next
    case False
    with "1.prems"(1) have e: "length xs - i - 1 = j" by simp
    have "\<forall>k < length xs - i. key (xs ! (length xs - i - 1)) \<le>s key (xs ! k)"
      using "1.prems"(2) e by auto
    with False show ?thesis by (subst (1 2) bubble_inner_unfold) simp
  qed
qed


lemma drop_eq_nth:
  "length ys = length xs \<Longrightarrow> (\<And>k. n \<le> k \<Longrightarrow> k < length xs \<Longrightarrow> ys ! k = xs ! k) \<Longrightarrow> drop n ys = drop n xs"
  by (rule nth_equalityI) auto

lemma outer_inv_step:
  assumes inv: "outer_inv key i xs" and lt: "Suc i < length xs"
  shows "outer_inv key (Suc i) (bubble_inner key i 0 xs)"
proof -
  let ?n = "length xs"
  let ?ys = "bubble_inner key i 0 xs"
  have len: "length ?ys = ?n" by (simp add: length_bubble_inner)
  have dr: "drop (?n - i) ?ys = drop (?n - i) xs"
    by (rule drop_eq_nth) (simp_all add: len bubble_inner_suffix)
  have "mset (take (?n - i) ?ys) + mset (drop (?n - i) ?ys) = mset (take (?n - i) xs) + mset (drop (?n - i) xs)"
    by (simp only: mset_append [symmetric] append_take_drop_id mset_bubble_inner)
  with dr have "mset (take (?n - i) ?ys) = mset (take (?n - i) xs)" by simp
  then have tk: "set (take (?n - i) ?ys) = set (take (?n - i) xs)" by (rule mset_eq_setD)
  have mn: "\<forall>k < ?n - i. key (?ys ! (?n - i - 1)) \<le>s key (?ys ! k)"
    using bubble_inner_min [of 0 i xs key] lt by simp
  have ix: "?n - Suc i < ?n" "Suc (?n - Suc i) = ?n - i" using lt by simp_all
  have dsplit: "drop (?n - Suc i) ?ys = ?ys ! (?n - Suc i) # drop (?n - i) xs"
    using Cons_nth_drop_Suc [of "?n - Suc i" ?ys] ix len dr by simp
  have pivot_in: "?ys ! (?n - Suc i) \<in> set (take (?n - i) xs)"
  proof -
    have "?ys ! (?n - Suc i) \<in> set (take (?n - i) ?ys)"
      using ix len by (auto simp: in_set_conv_nth intro!: exI [of _ "?n - Suc i"])
    with tk show ?thesis by simp
  qed
  have s1: "sorted_desc key (drop (?n - Suc i) ?ys)"
    using inv pivot_in unfolding outer_inv_def sorted_desc_def dsplit by auto
  have s2: "\<forall>a\<in>set (take (?n - Suc i) ?ys). \<forall>b\<in>set (drop (?n - Suc i) ?ys). key b \<le>s key a"
  proof (intro ballI)
    fix a b assume a: "a \<in> set (take (?n - Suc i) ?ys)" and b: "b \<in> set (drop (?n - Suc i) ?ys)"
    from a obtain k where k: "k < ?n - Suc i" "a = ?ys ! k"
      by (auto simp: in_set_conv_nth len)
    have a_in: "a \<in> set (take (?n - i) xs)"
    proof -
      have "a \<in> set (take (?n - i) ?ys)"
        using k len by (auto simp: in_set_conv_nth intro!: exI [of _ k])
      with tk show ?thesis by simp
    qed
    from b have "b = ?ys ! (?n - Suc i) \<or> b \<in> set (drop (?n - i) xs)" by (simp add: dsplit)
    then show "key b \<le>s key a"
    proof
      assume "b = ?ys ! (?n - Suc i)"
      with mn k show ?thesis by simp
    next
      assume "b \<in> set (drop (?n - i) xs)"
      with inv a_in show ?thesis unfolding outer_inv_def by blast
    qed
  qed
  show ?thesis unfolding outer_inv_def using s1 s2 lt len by simp
qed

lemma outer_inv_done:
  assumes inv: "outer_inv key i xs" and ge: "\<not> int i < int (length xs) - 1"
  shows "sorted_desc key xs"
proof (cases "i = length xs")
  case True
  with inv show ?thesis by (simp add: outer_inv_def)
next
  case False
  with inv ge have i: "Suc i = length xs" by (auto simp: outer_inv_def)
  then obtain x rest where xs: "xs = x # rest" by (cases xs) auto
  with i have "length xs - i = 1" by simp
  with inv xs show ?thesis by (simp add: outer_inv_def sorted_desc_def)
qed

lemma sorted_bubble_outer: "outer_inv key i xs \<Longrightarrow> sorted_desc key (bubble_outer key i xs)"
proof (induction key i xs rule: bubble_outer.induct)
  case (1 key i xs)
  show ?case
  proof (cases "int i < int (length xs) - 1")
    case True
    then have "Suc i < length xs" by simp
    from outer_inv_step [OF "1.prems" this] "1.IH" [OF True] True
    show ?thesis by (subst bubble_outer.simps) simp
  next
    case False
    with outer_inv_done [OF "1.prems"] show ?thesis by (subst bubble_outer.simps) simp
  qed
qed

lemma outer_inv_0: "outer_inv key 0 xs"
  by (simp add: outer_inv_def sorted_desc_def)

lemma sortUTXOsByValue_sorted: "sorted_desc Value (sortUTXOsByValue utxos)"
  unfolding sortUTXOsByValue_def by (rule sorted_bubble_outer [OF outer_inv_0])

lemma sortUTXOsByValue_mset: "mset (sortUTXOsByValue utxos) = mset utxos"
  unfolding sortUTXOsByValue_def by (rule mset_bubble_outer)

lemma sortUTXOsByTokenAmount_mset: "mset (sortUTXOsByTokenAmount utxos) = mset utxos"
  unfolding sortUTXOsByTokenAmount_def by (rule mset_bubble_outer)

section \<open>The loops in closed form\<close>

lemma filter_loop_eq: "filter_loop txConfig allUTXOs acc = acc @ candidates txConfig allUTXOs"
  by (induction allUTXOs arbitrary: acc) (auto simp: candidates_def Let_def)

lemma convert_loop_eq:
  "convert_loop utxoConfig responses utxos =
     utxos @ map utxo_of_response
       (take (nat (MaxUTXOsPerQuery utxoConfig) - length utxos)
          (filter (\<lambda>resp. MinConfirmations utxoConfig \<le> resp_Confirmations resp) responses))"
proof (induction responses arbitrary: utxos)
  case Nil
  then show ?case by simp
next
  case (Cons resp rest)
  show ?case
  proof (cases "resp_Confirmations resp < MinConfirmations utxoConfig")
    case True
    then show ?thesis using Cons.IH by simp
  next
    case False
    show ?thesis
    proof (cases "MaxUTXOsPerQuery utxoConfig \<le> int (length utxos)")
      case True
      then have "nat (MaxUTXOsPerQuery utxoConfig) - length utxos = 0" by simp
      with False True show ?thesis by simp
    next
      case m: False
      then obtain d where d: "nat (MaxUTXOsPerQuery utxoConfig) - length utxos = Suc d" 
        by (cases "nat (MaxUTXOsPerQuery utxoConfig) - length utxos") auto
      then have "nat (MaxUTXOsPerQuery utxoConfig) - length (utxos @ [utxo_of_response resp]) = d" by simp
      with False m d show ?thesis using Cons.IH [of "utxos @ [utxo_of_response resp]"] by simp
    qed
  qed
qed

lemma find_map: "find P (map f xs) = map_option f (find (P \<circ> f) xs)"
  by (induction xs) auto

lemma upt_shift: "[Suc 0..<Suc (Suc n)] = Suc 0 # map Suc [Suc 0..<Suc n]"
  by (simp add: upt_conv_Cons map_Suc_upt del: upt_Suc)

lemma select_loop_eq:
  "select_loop amount feeRate rest selected tot =
     (case find (\<lambda>k. amount + fee_for (length selected + k) feeRate \<le>s tot + totalValue (take k rest))
             [Suc 0..<Suc (length rest)] of
        Some k \<Rightarrow> Inr (selected @ take k rest, fee_for (length selected + k) feeRate)
      | None \<Rightarrow> Inl (tot + totalValue rest))"
proof (induction rest arbitrary: selected tot)
  case Nil
  then show ?case by (simp add: totalValue_def)
next
  case (Cons utxo rest)
  let ?P = "\<lambda>k. amount + fee_for (length selected + k) feeRate \<le>s tot + totalValue (take k (utxo # rest))"
  let ?Q = "\<lambda>k. amount + fee_for (length (selected @ [utxo]) + k) feeRate
                \<le>s (tot + Value utxo) + totalValue (take k rest)"
  have up: "[Suc 0..<Suc (length (utxo # rest))] = Suc 0 # map Suc [Suc 0..<Suc (length rest)]"
    using upt_shift [of "length rest"] by simp
  have PQ: "?P \<circ> Suc = ?Q" by (auto simp: totalValue_def add.assoc fun_eq_iff)
  have P1: "?P (Suc 0) \<longleftrightarrow> amount + fee_for (length (selected @ [utxo])) feeRate \<le>s tot + Value utxo"
    by (simp add: totalValue_def)
  show ?case
  proof (cases "?P (Suc 0)")
    case True
    then have "find ?P [Suc 0..<Suc (length (utxo # rest))] = Some (Suc 0)"
      by (simp only: up find.simps if_True)
    moreover have "select_loop amount feeRate (utxo # rest) selected tot
        = Inr (selected @ [utxo], fee_for (length (selected @ [utxo])) feeRate)"
      using True P1 by (simp add: Let_def)
    ultimately show ?thesis by simp
  next
    case False
    then have "select_loop amount feeRate (utxo # rest) selected tot
               = select_loop amount feeRate rest (selected @ [utxo]) (tot + Value utxo)"
      using P1 by (simp add: Let_def)
    also have "\<dots> = (case find ?Q [Suc 0..<Suc (length rest)] of
        Some k \<Rightarrow> Inr ((selected @ [utxo]) @ take k rest, fee_for (length (selected @ [utxo]) + k) feeRate)
      | None \<Rightarrow> Inl ((tot + Value utxo) + totalValue rest))"
      by (rule Cons.IH)
    also have "\<dots> = (case find ?P [Suc 0..<Suc (length (utxo # rest))] of
        Some k \<Rightarrow> Inr (selected @ take k (utxo # rest), fee_for (length selected + k) feeRate)
      | None \<Rightarrow> Inl (tot + totalValue (utxo # rest)))"
    proof -
      have "find ?P [Suc 0..<Suc (length (utxo # rest))] = map_option Suc (find ?Q [Suc 0..<Suc (length rest)])"
        using False by (simp only: up find.simps if_False find_map PQ)
      then show ?thesis
        by (simp add: totalValue_def add.assoc split: option.splits del: upt_Suc)
    qed
    finally show ?thesis .
  qed
qed

lemma select_loop_spec_first_funded:
  "select_loop amount feeRate sortedUTXOs [] 0 =
     (case spec_first_funded amount feeRate sortedUTXOs of
        Some k \<Rightarrow> Inr (take k sortedUTXOs, fee_for k feeRate)
      | None \<Rightarrow> Inl (totalValue sortedUTXOs))"
proof -
  have "(\<lambda>k. amount + fee_for (length ([]::UTXO list) + k) feeRate \<le>s 0 + totalValue (take k sortedUTXOs))
        = funded amount feeRate sortedUTXOs"
    by (simp add: funded_def fun_eq_iff)
  then show ?thesis
    unfolding spec_first_funded_def
    by (simp add: select_loop_eq split: option.splits del: upt_Suc)
qed


lemma spec_first_funded_alt:
  "spec_first_funded amount feeRate sortedUTXOs =
     map_option Suc (find (funded amount feeRate sortedUTXOs \<circ> Suc) [0..<length sortedUTXOs])"
proof -
  have "[Suc 0..<Suc (length sortedUTXOs)] = map Suc [0..<length sortedUTXOs]"
    by (simp only: map_Suc_upt)
  then show ?thesis by (simp only: spec_first_funded_def find_map)
qed

lemma spec_first_funded_Some:
  "spec_first_funded amount feeRate sortedUTXOs = Some k \<longleftrightarrow>
     0 < k \<and> k \<le> length sortedUTXOs \<and> funded amount feeRate sortedUTXOs k
     \<and> (\<forall>j. 0 < j \<and> j < k \<longrightarrow> \<not> funded amount feeRate sortedUTXOs j)"
proof
  assume "spec_first_funded amount feeRate sortedUTXOs = Some k"
  then obtain i where i: "k = Suc i" "i < length sortedUTXOs" "funded amount feeRate sortedUTXOs (Suc i)"
      "\<forall>j<i. \<not> funded amount feeRate sortedUTXOs (Suc j)"
    unfolding spec_first_funded_alt by (auto simp: find_Some_iff)
  have "\<not> funded amount feeRate sortedUTXOs j" if "0 < j \<and> j < k" for j
  proof -
    from that obtain j' where "j = Suc j'" by (cases j) auto
    with that i show ?thesis by simp
  qed
  with i show "0 < k \<and> k \<le> length sortedUTXOs \<and> funded amount feeRate sortedUTXOs k
     \<and> (\<forall>j. 0 < j \<and> j < k \<longrightarrow> \<not> funded amount feeRate sortedUTXOs j)" by simp
next
  assume a: "0 < k \<and> k \<le> length sortedUTXOs \<and> funded amount feeRate sortedUTXOs k
     \<and> (\<forall>j. 0 < j \<and> j < k \<longrightarrow> \<not> funded amount feeRate sortedUTXOs j)"
  then obtain i where k: "k = Suc i" by (cases k) auto
  with a have "find (funded amount feeRate sortedUTXOs \<circ> Suc) [0..<length sortedUTXOs] = Some i"
    by (auto simp: find_Some_iff intro!: exI [of _ i])
  with k show "spec_first_funded amount feeRate sortedUTXOs = Some k"
    by (simp add: spec_first_funded_alt)
qed

lemma spec_first_funded_None:
  "spec_first_funded amount feeRate sortedUTXOs = None \<longleftrightarrow>
     (\<forall>k. 0 < k \<and> k \<le> length sortedUTXOs \<longrightarrow> \<not> funded amount feeRate sortedUTXOs k)"
proof -
  have "(\<forall>k. 0 < k \<and> k \<le> length sortedUTXOs \<longrightarrow> \<not> funded amount feeRate sortedUTXOs k)
        \<longleftrightarrow> (\<forall>i < length sortedUTXOs. \<not> funded amount feeRate sortedUTXOs (Suc i))"
    by (metis Suc_le_eq gr0_conv_Suc zero_less_Suc)
  then show ?thesis by (auto simp: spec_first_funded_alt find_None_iff)
qed

lemma select_from_eq:
  "select_from txConfig address allUTXOs amount feeRate =
     (if allUTXOs = [] then Inl (NoUTXOsAvailable address)
      else if candidates txConfig allUTXOs = [] then Inl NoSuitableUTXOs
      else if MaxFeeRate txConfig <s effective_rate txConfig feeRate
      then Inl (FeeRateExceedsMaximumAllowed (effective_rate txConfig feeRate) (MaxFeeRate txConfig))
      else case spec_first_funded amount (effective_rate txConfig feeRate)
                  (sortUTXOsByValue (candidates txConfig allUTXOs)) of
             Some k \<Rightarrow> Inr (take k (sortUTXOsByValue (candidates txConfig allUTXOs)),
                           fee_for k (effective_rate txConfig feeRate))
           | None \<Rightarrow> Inl (InsufficientFunds
                           (amount + fee_for (length (sortUTXOsByValue (candidates txConfig allUTXOs))) feeRate)
                           (totalValue (sortUTXOsByValue (candidates txConfig allUTXOs)))))"
  by (simp add: select_from_def filter_loop_eq effective_rate_def Let_def
      select_loop_spec_first_funded split: option.splits)

section \<open>The funding check over the integers\<close>

lemma sint_word_of_int64:
  "- (2 ^ 63) \<le> k \<Longrightarrow> k < 2 ^ 63 \<Longrightarrow> sint (word_of_int k :: int64) = k"
  by (simp add: sint_sbintrunc' signed_take_bit_int_eq_self)

lemma sint_add64:
  assumes "- (2 ^ 63) \<le> sint a + sint b" and "sint a + sint b < 2 ^ 63"
  shows "sint (a + b :: int64) = sint a + sint b"
  using assms by (simp add: sint_word_ariths signed_take_bit_int_eq_self)

lemma totalValue_int_total: "totalValue utxos = word_of_int (int_total utxos)"
  by (induction utxos) (simp_all add: totalValue_def int_total_def)

lemma sint_totalValue:
  "- (2 ^ 63) \<le> int_total utxos \<Longrightarrow> int_total utxos < 2 ^ 63 \<Longrightarrow>
   sint (totalValue utxos) = int_total utxos"
  unfolding totalValue_int_total by (rule sint_word_of_int64)

lemma sint_fee_for:
  assumes r: "0 <s feeRate" and b: "int_fee n feeRate < 2 ^ 63"
  shows "sint (fee_for n feeRate) = int_fee n feeRate"
proof -
  have "fee_for n feeRate = word_of_int (int_fee n feeRate)"
    by (simp add: fee_for_def int_fee_def)
  moreover have "0 \<le> int_fee n feeRate"
    using r by (simp add: int_fee_def word_sless_alt)
  ultimately show ?thesis using b sint_word_of_int64 [of "int_fee n feeRate"] by simp
qed

lemma int_fee_mono: "0 <s feeRate \<Longrightarrow> j \<le> n \<Longrightarrow> int_fee j feeRate \<le> int_fee n feeRate"
  by (simp add: int_fee_def word_sless_alt mult_right_mono)

lemma funded_int:
  assumes a: "0 <s amount" and r: "0 <s rate"
    and f: "sint amount + int_fee (length sortedUTXOs) rate < 2 ^ 63"
    and j: "j \<le> length sortedUTXOs"
    and t: "- (2 ^ 63) \<le> int_total (take j sortedUTXOs)" "int_total (take j sortedUTXOs) < 2 ^ 63"
  shows "funded amount rate sortedUTXOs j \<longleftrightarrow>
           sint amount + int_fee j rate \<le> int_total (take j sortedUTXOs)"
    and "sint (fee_for j rate) = int_fee j rate"
proof -
  have a0: "0 < sint amount" using a by (simp add: word_sless_alt)
  have fj: "int_fee j rate \<le> int_fee (length sortedUTXOs) rate"
    using r j by (rule int_fee_mono)
  have f0: "0 \<le> int_fee j rate" using r by (simp add: int_fee_def word_sless_alt)
  have sf: "sint (fee_for j rate) = int_fee j rate"
    using r fj f a0 by (intro sint_fee_for) simp_all
  then show "sint (fee_for j rate) = int_fee j rate" .
  have "sint (amount + fee_for j rate) = sint amount + sint (fee_for j rate)"
    using sf a0 f0 fj f by (intro sint_add64) simp_all
  moreover have "sint (totalValue (take j sortedUTXOs)) = int_total (take j sortedUTXOs)"
    using t by (rule sint_totalValue)
  ultimately show "funded amount rate sortedUTXOs j \<longleftrightarrow>
           sint amount + int_fee j rate \<le> int_total (take j sortedUTXOs)"
    using sf by (simp add: funded_def word_sle_eq)
qed

section \<open>The cache and the fetch\<close>

lemma getFromCache_shape:
  "getFromCache m address = (r, m1) \<Longrightarrow> m1 = m \<or> m1 = m\<lparr>ticks := Suc (ticks m)\<rparr>"
  by (auto simp: getFromCache_def Let_def time_Since_def time_Now_def split: if_splits option.splits prod.splits)

lemma getFromCache_Some:
  "fst (getFromCache m address) = Some entry \<longleftrightarrow>
     EnableCaching (cfg_UTXO (configManager m)) \<and> cache m address = Some entry
     \<and> time_Sub (clock m (ticks m)) (Timestamp entry) \<le>s cacheTTL (cfg_UTXO (configManager m))"
  by (auto simp: getFromCache_def Let_def time_Since_def time_Now_def word_sle_eq word_sless_alt
      split: if_splits option.splits prod.splits)

lemma getFromCache_fields:
  "cache (snd (getFromCache m address)) = cache m"
  "configManager (snd (getFromCache m address)) = configManager m"
  "requests (snd (getFromCache m address)) = requests m"
  "unspent_reply (snd (getFromCache m address)) = unspent_reply m"
  "balance_reply (snd (getFromCache m address)) = balance_reply m"
  "clock (snd (getFromCache m address)) = clock m"
  using getFromCache_shape [of m address "fst (getFromCache m address)" "snd (getFromCache m address)"]
  by auto

lemma GetUTXOs_miss:
  assumes "fst (getFromCache m address) = None"
  shows "fst (GetUTXOs m address) =
     (case unspent_reply m (unspent_url m address) of
        Inl err \<Rightarrow> Inl (GetUTXOsFailed (RequestFailed err))
      | Inr responses \<Rightarrow> Inr (convert_loop (cfg_UTXO (configManager m)) responses []))"
    and "requests (snd (GetUTXOs m address)) = requests m @ [unspent_url m address]"
proof -
  obtain m1 where g: "getFromCache m address = (None, m1)"
    using assms by (cases "getFromCache m address") auto
  then have f: "configManager m1 = configManager m" "unspent_reply m1 = unspent_reply m" "requests m1 = requests m"
    using getFromCache_fields [of m address] by simp_all
  then have u: "unspent_url m1 address = unspent_url m address" by (simp add: unspent_url_def)
  show "fst (GetUTXOs m address) =
     (case unspent_reply m (unspent_url m address) of
        Inl err \<Rightarrow> Inl (GetUTXOsFailed (RequestFailed err))
      | Inr responses \<Rightarrow> Inr (convert_loop (cfg_UTXO (configManager m)) responses []))"
    using g f u by (simp add: GetUTXOs_def Let_def time_Now_def split: sum.splits prod.splits)
  show "requests (snd (GetUTXOs m address)) = requests m @ [unspent_url m address]"
    using g f u by (simp add: GetUTXOs_def Let_def time_Now_def setCache_def split: sum.splits prod.splits)
qed

lemma GetUTXOs_hit:
  assumes "fst (getFromCache m address) = Some entry"
  shows "GetUTXOs m address = (Inr (UTXOs entry), snd (getFromCache m address))"
  using assms by (cases "getFromCache m address") (simp add: GetUTXOs_def)


lemma native_tagged_convert_loop:
  "list_all native_tagged (convert_loop utxoConfig responses [])"
  by (simp add: convert_loop_eq list_all_iff native_tagged_def utxo_of_response_def)

lemma GetUTXOs_cache:
  "cache (snd (GetUTXOs m address)) = cache m
   \<or> (\<exists>responses. unspent_reply m (unspent_url m address) = Inr responses
        \<and> fst (getFromCache m address) = None
        \<and> EnableCaching (cfg_UTXO (configManager m))
        \<and> fst (GetUTXOs m address) = Inr (convert_loop (cfg_UTXO (configManager m)) responses [])
        \<and> cache (snd (GetUTXOs m address)) =
            (cache m)(address \<mapsto>
               \<lparr>UTXOs = convert_loop (cfg_UTXO (configManager m)) responses [], Balance = None,
                Timestamp = clock m (ticks (snd (getFromCache m address)))\<rparr>))"
proof -
  obtain r m1 where g: "getFromCache m address = (r, m1)"
    by (cases "getFromCache m address")
  then have f: "configManager m1 = configManager m" "unspent_reply m1 = unspent_reply m"
      "cache m1 = cache m" "clock m1 = clock m"
    using getFromCache_fields [of m address] by simp_all
  then have u: "unspent_url m1 address = unspent_url m address" by (simp add: unspent_url_def)
  show ?thesis
    using g f u
    by (cases r; cases "unspent_reply m (unspent_url m address)")
       (simp_all add: GetUTXOs_def Let_def time_Now_def setCache_def)
qed

lemma GetUTXOs_fields:
  "configManager (snd (GetUTXOs m address)) = configManager m"
  "unspent_reply (snd (GetUTXOs m address)) = unspent_reply m"
  "balance_reply (snd (GetUTXOs m address)) = balance_reply m"
  "clock (snd (GetUTXOs m address)) = clock m"
proof -
  obtain r m1 where g: "getFromCache m address = (r, m1)"
    by (cases "getFromCache m address")
  then have f: "configManager m1 = configManager m" "unspent_reply m1 = unspent_reply m"
      "balance_reply m1 = balance_reply m" "clock m1 = clock m"
    using getFromCache_fields [of m address] by simp_all
  then have u: "unspent_url m1 address = unspent_url m address" by (simp add: unspent_url_def)
  show "configManager (snd (GetUTXOs m address)) = configManager m"
    "unspent_reply (snd (GetUTXOs m address)) = unspent_reply m"
    "balance_reply (snd (GetUTXOs m address)) = balance_reply m"
    "clock (snd (GetUTXOs m address)) = clock m"
    using g f u
    by (cases r; cases "unspent_reply m (unspent_url m address)";
        simp add: GetUTXOs_def Let_def time_Now_def setCache_def)+
qed

lemma cache_native_GetUTXOs:
  assumes "cache_native m"
  shows "cache_native (snd (GetUTXOs m address))"
    and "fst (GetUTXOs m address) = Inr utxos \<Longrightarrow> list_all native_tagged utxos"
proof -
  show "cache_native (snd (GetUTXOs m address))"
    using GetUTXOs_cache [of m address] assms
    by (auto simp: cache_native_def native_tagged_convert_loop split: if_splits)
  show "list_all native_tagged utxos" if r: "fst (GetUTXOs m address) = Inr utxos"
  proof (cases "fst (getFromCache m address)")
    case None
    with r show ?thesis
      by (auto simp: GetUTXOs_miss native_tagged_convert_loop split: sum.splits)
  next
    case (Some entry)
    then have "cache m address = Some entry" by (simp add: getFromCache_Some)
    moreover from Some r have "utxos = UTXOs entry" by (simp add: GetUTXOs_hit)
    ultimately show ?thesis using assms by (auto simp: cache_native_def)
  qed
qed


lemma GetEnhancedBalance_cache:
  "(\<forall>other. other \<noteq> address \<longrightarrow> cache (snd (GetEnhancedBalance m address)) other = cache m other)
   \<and> (cache (snd (GetEnhancedBalance m address)) address = cache m address
      \<or> (\<exists>entry balance. cache m address = Some entry
            \<and> cache (snd (GetEnhancedBalance m address)) address
                = Some (entry\<lparr>Balance := Some balance\<rparr>))
      \<or> (\<exists>utxos balance n. ticks m \<le> n
            \<and> (utxos = [] \<or> (\<exists>responses. utxos = convert_loop (cfg_UTXO (configManager m)) responses []))
            \<and> cache (snd (GetEnhancedBalance m address)) address
                = Some \<lparr>UTXOs = utxos, Balance = Some balance, Timestamp = clock m n\<rparr>))"
proof -
  let ?c = "cfg_UTXO (configManager m)"
  obtain r1 m1 where g1: "getFromCache m address = (r1, m1)"
    by (cases "getFromCache m address")
  have f1: "configManager m1 = configManager m" "cache m1 = cache m" "clock m1 = clock m"
      "balance_reply m1 = balance_reply m" "unspent_reply m1 = unspent_reply m"
    using getFromCache_fields [of m address] g1 by simp_all
  have t1: "ticks m \<le> ticks m1"
    using getFromCache_shape [OF g1] by auto
  let ?m2 = "m1\<lparr>requests := requests m1 @ [balance_url m1 address]\<rparr>"
  show ?thesis
  proof (cases "case r1 of None \<Rightarrow> None | Some entry \<Rightarrow> Balance entry")
    case (Some balance)
    then have "snd (GetEnhancedBalance m address) = m1"
      using g1 by (simp add: GetEnhancedBalance_def)
    with f1 show ?thesis by simp
  next
    case None
    show ?thesis
    proof (cases "balance_reply m (balance_url m1 address)")
      case (Inl err)
      then have "snd (GetEnhancedBalance m address) = ?m2"
        using g1 None f1 by (simp add: GetEnhancedBalance_def Let_def)
      with f1 show ?thesis by simp
    next
      case (Inr balanceResp)
      obtain r3 m3 where g3: "GetUTXOs ?m2 address = (r3, m3)"
        by (cases "GetUTXOs ?m2 address")
      have f3: "configManager m3 = configManager m" "clock m3 = clock m"
        using GetUTXOs_fields [of ?m2 address] g3 f1 by simp_all
      have c3: "cache m3 = cache m
         \<or> (\<exists>responses. EnableCaching ?c \<and> r3 = Inr (convert_loop ?c responses [])
              \<and> cache m3 = (cache m)(address \<mapsto>
                    \<lparr>UTXOs = convert_loop ?c responses [], Balance = None,
                     Timestamp = clock m (ticks (snd (getFromCache ?m2 address)))\<rparr>))"
        using GetUTXOs_cache [of ?m2 address] g3 f1 by auto
      have t2: "ticks m \<le> ticks (snd (getFromCache ?m2 address))"
        using getFromCache_shape [of ?m2 address "fst (getFromCache ?m2 address)" "snd (getFromCache ?m2 address)"] t1
        by auto
      have t3: "ticks m \<le> ticks m3"
      proof -
        have "ticks ?m2 \<le> ticks (snd (GetUTXOs ?m2 address))"
          using getFromCache_shape [of ?m2 address "fst (getFromCache ?m2 address)" "snd (getFromCache ?m2 address)"]
          by (cases "getFromCache ?m2 address"; cases "fst (getFromCache ?m2 address)";
              cases "unspent_reply m1 (unspent_url m1 address)")
             (auto simp: GetUTXOs_def Let_def time_Now_def setCache_def unspent_url_def
               split: sum.splits if_splits)
        with g3 t1 show ?thesis by simp
      qed
      show ?thesis
      proof (cases r3)
        case (Inl err)
        then have "snd (GetEnhancedBalance m address) = m3"
          using g1 None f1 Inr g3 by (simp add: GetEnhancedBalance_def Let_def)
        moreover from c3 Inl have "cache m3 = cache m" by auto
        ultimately show ?thesis by simp
      next
        case utx: (Inr utxos)
        let ?eb = "enhanced_balance ?c balanceResp utxos"
        show ?thesis
        proof (cases "EnableCaching ?c")
          case False
          then have "snd (GetEnhancedBalance m address) = m3"
            using g1 None f1 Inr g3 utx by (simp add: GetEnhancedBalance_def Let_def)
          moreover from c3 False have "cache m3 = cache m" by auto
          ultimately show ?thesis by simp
        next
          case True
          obtain r4 m4 where g4: "getFromCache m3 address = (r4, m4)"
            by (cases "getFromCache m3 address")
          have f4: "configManager m4 = configManager m" "cache m4 = cache m3" "clock m4 = clock m"
            using getFromCache_fields [of m3 address] g4 f3 by simp_all
          have t4: "ticks m \<le> ticks m4"
            using getFromCache_shape [OF g4] t3 by auto
          show ?thesis
          proof (cases r4)
            case n4: None
            have "cache (snd (GetEnhancedBalance m address)) =
                (cache m3)(address \<mapsto> \<lparr>UTXOs = [], Balance = Some ?eb, Timestamp = clock m (ticks m4)\<rparr>)"
              using g1 None f1 Inr g3 utx True g4 n4 f4
              by (simp add: GetEnhancedBalance_def Let_def time_Now_def setCache_def)
            then have fin: "cache (snd (GetEnhancedBalance m address)) address
                = Some \<lparr>UTXOs = [], Balance = Some ?eb, Timestamp = clock m (ticks m4)\<rparr>"
              and oth: "\<forall>other. other \<noteq> address \<longrightarrow>
                cache (snd (GetEnhancedBalance m address)) other = cache m3 other"
              by simp_all
            from fin t4 have "\<exists>utxos balance n. ticks m \<le> n
            \<and> (utxos = [] \<or> (\<exists>responses. utxos = convert_loop (cfg_UTXO (configManager m)) responses []))
                \<and> cache (snd (GetEnhancedBalance m address)) address
                    = Some \<lparr>UTXOs = utxos, Balance = Some balance, Timestamp = clock m n\<rparr>"
              by blast
            moreover from oth c3 have "\<forall>other. other \<noteq> address \<longrightarrow>
                cache (snd (GetEnhancedBalance m address)) other = cache m other"
              by auto
            ultimately show ?thesis by blast
          next
            case s4: (Some e4)
            then have e4: "cache m3 address = Some e4"
              using g4 getFromCache_Some [of m3 address e4] by simp
            have "cache (snd (GetEnhancedBalance m address)) =
                (cache m3)(address \<mapsto> e4\<lparr>Balance := Some ?eb\<rparr>)"
              using g1 None f1 Inr g3 utx True g4 s4 f4
              by (simp add: GetEnhancedBalance_def Let_def)
            then have fin: "cache (snd (GetEnhancedBalance m address)) address
                = Some (e4\<lparr>Balance := Some ?eb\<rparr>)"
              and oth: "\<forall>other. other \<noteq> address \<longrightarrow>
                cache (snd (GetEnhancedBalance m address)) other = cache m3 other"
              by simp_all
            from c3 show ?thesis
            proof
              assume same: "cache m3 = cache m"
              with e4 have "cache m address = Some e4" by simp
              with fin oth same show ?thesis by auto
            next
              assume "\<exists>responses. EnableCaching ?c \<and> r3 = Inr (convert_loop ?c responses [])
                \<and> cache m3 = (cache m)(address \<mapsto>
                    \<lparr>UTXOs = convert_loop ?c responses [], Balance = None,
                     Timestamp = clock m (ticks (snd (getFromCache ?m2 address)))\<rparr>)"
              then obtain responses where st: "cache m3 = (cache m)(address \<mapsto>
                    \<lparr>UTXOs = convert_loop ?c responses [], Balance = None,
                     Timestamp = clock m (ticks (snd (getFromCache ?m2 address)))\<rparr>)"
                by blast
              with e4 have "e4 = \<lparr>UTXOs = convert_loop ?c responses [], Balance = None,
                     Timestamp = clock m (ticks (snd (getFromCache ?m2 address)))\<rparr>"
                by simp
              with fin have "cache (snd (GetEnhancedBalance m address)) address
                = Some \<lparr>UTXOs = convert_loop ?c responses [], Balance = Some ?eb,
                     Timestamp = clock m (ticks (snd (getFromCache ?m2 address)))\<rparr>"
                by simp
              with t2 have "\<exists>utxos balance n. ticks m \<le> n
            \<and> (utxos = [] \<or> (\<exists>responses. utxos = convert_loop (cfg_UTXO (configManager m)) responses []))
                \<and> cache (snd (GetEnhancedBalance m address)) address
                    = Some \<lparr>UTXOs = utxos, Balance = Some balance, Timestamp = clock m n\<rparr>"
                by blast
              moreover from oth st have "\<forall>other. other \<noteq> address \<longrightarrow>
                cache (snd (GetEnhancedBalance m address)) other = cache m other"
                by simp
              ultimately show ?thesis by blast
            qed
          qed
        qed
      qed
    qed
  qed
qed

section \<open>Change computation: the dust rule\<close>

lemma CalculateChange_eq:
  "CalculateChange txConfig selectedUTXOs amount fee =
     (if DustLimit txConfig <s totalValue selectedUTXOs - amount - fee
      then (totalValue selectedUTXOs - amount - fee, True) else (0, False))"
  by (simp add: CalculateChange_def foldl_Value_totalValue Let_def)

lemma CalculateChange_underfunded:
  assumes d: "0 \<le>s DustLimit txConfig"
    and r: "- (2 ^ 63) \<le> sint (totalValue selectedUTXOs) - sint amount - sint fee"
    and u: "sint (totalValue selectedUTXOs) < sint amount + sint fee"
  shows "CalculateChange txConfig selectedUTXOs amount fee = (0, False)"
proof -
  let ?c = "totalValue selectedUTXOs - amount - fee"
  have "sint ?c = sint (totalValue selectedUTXOs) - sint amount - sint fee"
    using r u by (simp add: sint_sub3 signed_take_bit_int_eq_self)
  with u have "sint ?c < 0" by simp
  moreover from d have "0 \<le> sint (DustLimit txConfig)" by (simp add: word_sle_eq)
  ultimately have "\<not> DustLimit txConfig <s ?c" by (simp add: word_sless_alt)
  then show ?thesis by (simp add: CalculateChange_eq)
qed

text \<open>
  C10 (as amended). \<^verbatim>\<open>CalculateChange\<close> never fails: with \<open>V\<close> the sum of the
  selected outputs' values and every operation in \<^verbatim>\<open>int64\<close> arithmetic, it returns
  \<open>(V - A - F, true)\<close> when \<open>V - A - F\<close> is strictly greater than the configured
  dust limit and \<open>(0, false)\<close> otherwise. When the dust limit is not negative and
  \<open>V - A - F\<close> does not fall below the smallest \<^verbatim>\<open>int64\<close>, an underfunded input
  set (\<open>V < A + F\<close> over the integers) is reported as \<open>(0, false)\<close>.
\<close>

theorem CalculateChange_dust_rule:
  "CalculateChange txConfig selectedUTXOs amount fee =
     (if DustLimit txConfig <s totalValue selectedUTXOs - amount - fee
      then (totalValue selectedUTXOs - amount - fee, True) else (0, False))
   \<and> (0 \<le>s DustLimit txConfig
        \<and> - (2 ^ 63) \<le> sint (totalValue selectedUTXOs) - sint amount - sint fee
        \<and> sint (totalValue selectedUTXOs) < sint amount + sint fee
      \<longrightarrow> CalculateChange txConfig selectedUTXOs amount fee = (0, False))"
  using CalculateChange_eq CalculateChange_underfunded by blast

theorem CalculateChange_dust_rule_witness:
  "0 \<le>s DustLimit getDefaultTransactionConfig
   \<and> - (2 ^ 63) \<le> sint (totalValue [native_utxo ''aa'' 100]) - sint (1000 :: int64) - sint (1130 :: int64)
   \<and> sint (totalValue [native_utxo ''aa'' 100]) < sint (1000 :: int64) + sint (1130 :: int64)
   \<and> CalculateChange getDefaultTransactionConfig [native_utxo ''aa'' 100] 1000 1130 = (0, False)"
proof -
  have h: "0 \<le>s DustLimit getDefaultTransactionConfig
      \<and> - (2 ^ 63) \<le> sint (totalValue [native_utxo ''aa'' 100]) - sint (1000 :: int64) - sint (1130 :: int64)
      \<and> sint (totalValue [native_utxo ''aa'' 100]) < sint (1000 :: int64) + sint (1130 :: int64)"
    by (simp add: getDefaultTransactionConfig_def totalValue_def native_utxo_def
        word_sle_eq)
  with CalculateChange_dust_rule
    [of getDefaultTransactionConfig "[native_utxo ''aa'' 100]" 1000 1130]
  show ?thesis by blast
qed

text \<open>
  C10 as stated fails in two ways. With the default configuration, one output of
  value 1000, the amount \<open>2^63 - 1\<close> and the fee 1130, the input set is underfunded
  and the wrapped difference is a change of \<open>2^63 - 129\<close>; with a dust limit of
  \<open>-10\<close> (a configuration that \<^verbatim>\<open>NewManagerWithConfig\<close> accepts), no output, amount 1
  and fee 1, the change is \<open>-2\<close>.
\<close>

theorem CalculateChange_underfunded_counterexample:
  "sint (totalValue [native_utxo ''aa'' 1000])
     < sint (9223372036854775807 :: int64) + sint (1130 :: int64)
   \<and> CalculateChange getDefaultTransactionConfig [native_utxo ''aa'' 1000]
        9223372036854775807 1130 = (9223372036854775679, True)
   \<and> sint (totalValue []) < sint (1 :: int64) + sint (1 :: int64)
   \<and> CalculateChange (getDefaultTransactionConfig\<lparr>DustLimit := - 10\<rparr>) [] 1 1 = (- 2, True)"
  by (simp add: CalculateChange_eq getDefaultTransactionConfig_def totalValue_def
      native_utxo_def word_sless_alt)

section \<open>Evaluation on a fresh manager\<close>

lemma utxo_of_response_native: "utxo_of_response (response txid v 6) = native_utxo txid v"
  by (simp add: utxo_of_response_def response_def native_utxo_def)

lemma GetUTXOs_fresh:
  "fst (GetUTXOs (fresh_manager config responses) address)
     = Inr (convert_loop (cfg_UTXO config) responses [])"
  by (simp add: GetUTXOs_def getFromCache_def fresh_manager_def Let_def time_Now_def setCache_def
      split: prod.splits)

lemma fst_SelectUTXOs_fresh:
  "fst (SelectUTXOs (fresh_manager config responses) address amount feeRate)
     = select_from (cfg_Transaction config) address
         (convert_loop (cfg_UTXO config) responses []) amount feeRate"
proof -
  obtain r m' where g: "GetUTXOs (fresh_manager config responses) address = (r, m')"
    by (cases "GetUTXOs (fresh_manager config responses) address")
  with GetUTXOs_fresh [of config responses address]
  have "r = Inr (convert_loop (cfg_UTXO config) responses [])" by simp
  with g show ?thesis by (simp add: SelectUTXOs_def fresh_manager_def)
qed

lemma sort_three: "sortUTXOsByValue [native_utxo ''a'' 30000, native_utxo ''b'' 5000, native_utxo ''c'' 50000]
  = [native_utxo ''c'' 50000, native_utxo ''a'' 30000, native_utxo ''b'' 5000]"
  by (simp add: sortUTXOsByValue_def bubble_outer.simps bubble_inner.simps swap_adjacent_def
      native_utxo_def word_sless_alt)

lemma convert_three:
  "convert_loop (cfg_UTXO getDefaultConfig)
     [response ''a'' 30000 6, response ''b'' 5000 6, response ''c'' 50000 6] []
   = [native_utxo ''a'' 30000, native_utxo ''b'' 5000, native_utxo ''c'' 50000]"
  by (simp add: getDefaultConfig_def getDefaultUTXOConfig_def utxo_of_response_native)
     (simp add: response_def)

lemma select_three: "fst (SelectUTXOs (fresh_manager getDefaultConfig
     [response ''a'' 30000 6, response ''b'' 5000 6, response ''c'' 50000 6]) ''sender'' 60000 5)
   = Inr ([native_utxo ''c'' 50000, native_utxo ''a'' 30000], 1870)"
  apply (simp only: fst_SelectUTXOs_fresh convert_three)
  apply (simp add: select_from_def getDefaultConfig_def getDefaultTransactionConfig_def Let_def)
  apply (simp add: native_utxo_def sort_three [unfolded native_utxo_def] fee_for_def word_sless_alt word_sle_eq)
  done

section \<open>The native coin selector returns the first funded prefix\<close>

lemma SelectUTXOs_first_funded:
  assumes fetch: "GetUTXOs m address = (Inr allUTXOs, m')"
    and txConfig_def: "txConfig = cfg_Transaction (configManager m)"
    and sortedUTXOs_def: "sortedUTXOs = sortUTXOsByValue (candidates txConfig allUTXOs)"
    and rate_def: "rate = effective_rate txConfig feeRate"
  shows "sorted_desc Value sortedUTXOs \<and> mset sortedUTXOs = mset (candidates txConfig allUTXOs)
    \<and> (\<forall>selectedUTXOs fee.
          fst (SelectUTXOs m address amount feeRate) = Inr (selectedUTXOs, fee) \<longleftrightarrow>
            candidates txConfig allUTXOs \<noteq> [] \<and> \<not> MaxFeeRate txConfig <s rate
            \<and> (\<exists>k. 0 < k \<and> k \<le> length sortedUTXOs
                  \<and> funded amount rate sortedUTXOs k
                  \<and> (\<forall>j. 0 < j \<and> j < k \<longrightarrow> \<not> funded amount rate sortedUTXOs j)
                  \<and> selectedUTXOs = take k sortedUTXOs \<and> fee = fee_for k rate))
    \<and> (\<forall>selectedUTXOs fee.
          fst (SelectUTXOs m address amount feeRate) = Inr (selectedUTXOs, fee) \<longrightarrow>
            amount + fee \<le>s totalValue selectedUTXOs
            \<and> (1 < length selectedUTXOs \<or> 0 <s amount + fee_for 0 rate \<longrightarrow>
                 \<not> amount + fee_for (length selectedUTXOs - 1) rate
                      \<le>s totalValue (butlast selectedUTXOs)))"
proof (intro conjI allI)
  show "sorted_desc Value sortedUTXOs"
    unfolding sortedUTXOs_def by (rule sortUTXOsByValue_sorted)
  show "mset sortedUTXOs = mset (candidates txConfig allUTXOs)"
    unfolding sortedUTXOs_def by (rule sortUTXOsByValue_mset)
  have sel: "fst (SelectUTXOs m address amount feeRate)
               = select_from txConfig address allUTXOs amount feeRate"
    using fetch by (simp add: SelectUTXOs_def txConfig_def)
  have ne: "candidates txConfig allUTXOs \<noteq> [] \<Longrightarrow> allUTXOs \<noteq> []"
    by (auto simp: candidates_def)
  have iff: "fst (SelectUTXOs m address amount feeRate) = Inr (selectedUTXOs, fee) \<longleftrightarrow>
            candidates txConfig allUTXOs \<noteq> [] \<and> \<not> MaxFeeRate txConfig <s rate
            \<and> (\<exists>k. 0 < k \<and> k \<le> length sortedUTXOs
                  \<and> funded amount rate sortedUTXOs k
                  \<and> (\<forall>j. 0 < j \<and> j < k \<longrightarrow> \<not> funded amount rate sortedUTXOs j)
                  \<and> selectedUTXOs = take k sortedUTXOs \<and> fee = fee_for k rate)"
    for selectedUTXOs fee
  proof (cases "candidates txConfig allUTXOs = [] \<or> MaxFeeRate txConfig <s rate")
    case True
    then show ?thesis
      unfolding sel select_from_eq rate_def by (auto split: if_splits)
  next
    case False
    then have r: "fst (SelectUTXOs m address amount feeRate) =
        (case spec_first_funded amount rate sortedUTXOs of
           Some k \<Rightarrow> Inr (take k sortedUTXOs, fee_for k rate)
         | None \<Rightarrow> Inl (InsufficientFunds (amount + fee_for (length sortedUTXOs) feeRate)
                         (totalValue sortedUTXOs)))"
      unfolding sel select_from_eq rate_def sortedUTXOs_def using ne by simp
    show ?thesis
    proof (cases "spec_first_funded amount rate sortedUTXOs")
      case None
      with r have e: "fst (SelectUTXOs m address amount feeRate)
          = Inl (InsufficientFunds (amount + fee_for (length sortedUTXOs) feeRate)
                   (totalValue sortedUTXOs))" by simp
      from None have n: "\<forall>k. 0 < k \<and> k \<le> length sortedUTXOs \<longrightarrow> \<not> funded amount rate sortedUTXOs k"
        by (simp add: spec_first_funded_None)
      have "fst (SelectUTXOs m address amount feeRate) \<noteq> Inr (selectedUTXOs, fee)"
        using e by simp
      moreover have "\<not> (\<exists>k. 0 < k \<and> k \<le> length sortedUTXOs
                  \<and> funded amount rate sortedUTXOs k
                  \<and> (\<forall>j. 0 < j \<and> j < k \<longrightarrow> \<not> funded amount rate sortedUTXOs j)
                  \<and> selectedUTXOs = take k sortedUTXOs \<and> fee = fee_for k rate)"
        using n by blast
      ultimately show ?thesis by blast
    next
      case (Some k)
      then have k: "0 < k \<and> k \<le> length sortedUTXOs \<and> funded amount rate sortedUTXOs k
          \<and> (\<forall>j. 0 < j \<and> j < k \<longrightarrow> \<not> funded amount rate sortedUTXOs j)"
        by (simp add: spec_first_funded_Some)
      from r Some have e: "fst (SelectUTXOs m address amount feeRate)
          = Inr (take k sortedUTXOs, fee_for k rate)" by simp
      show ?thesis
      proof
        assume "fst (SelectUTXOs m address amount feeRate) = Inr (selectedUTXOs, fee)"
        with e have "selectedUTXOs = take k sortedUTXOs" "fee = fee_for k rate" by simp_all
        with k False show "candidates txConfig allUTXOs \<noteq> [] \<and> \<not> MaxFeeRate txConfig <s rate
            \<and> (\<exists>k. 0 < k \<and> k \<le> length sortedUTXOs
                  \<and> funded amount rate sortedUTXOs k
                  \<and> (\<forall>j. 0 < j \<and> j < k \<longrightarrow> \<not> funded amount rate sortedUTXOs j)
                  \<and> selectedUTXOs = take k sortedUTXOs \<and> fee = fee_for k rate)"
          by blast
      next
        assume "candidates txConfig allUTXOs \<noteq> [] \<and> \<not> MaxFeeRate txConfig <s rate
            \<and> (\<exists>k. 0 < k \<and> k \<le> length sortedUTXOs
                  \<and> funded amount rate sortedUTXOs k
                  \<and> (\<forall>j. 0 < j \<and> j < k \<longrightarrow> \<not> funded amount rate sortedUTXOs j)
                  \<and> selectedUTXOs = take k sortedUTXOs \<and> fee = fee_for k rate)"
        then obtain k' where k': "0 < k'" "funded amount rate sortedUTXOs k'"
            "\<forall>j. 0 < j \<and> j < k' \<longrightarrow> \<not> funded amount rate sortedUTXOs j"
            "selectedUTXOs = take k' sortedUTXOs" "fee = fee_for k' rate"
          by blast
        have "\<not> k' < k" using k k'(1,2) by blast
        moreover have "\<not> k < k'" using k k'(3) by blast
        ultimately have "k' = k" by simp
        with e k'(4,5) show "fst (SelectUTXOs m address amount feeRate) = Inr (selectedUTXOs, fee)"
          by simp
      qed
    qed
  qed
  show "fst (SelectUTXOs m address amount feeRate) = Inr (selectedUTXOs, fee) \<longleftrightarrow>
            candidates txConfig allUTXOs \<noteq> [] \<and> \<not> MaxFeeRate txConfig <s rate
            \<and> (\<exists>k. 0 < k \<and> k \<le> length sortedUTXOs
                  \<and> funded amount rate sortedUTXOs k
                  \<and> (\<forall>j. 0 < j \<and> j < k \<longrightarrow> \<not> funded amount rate sortedUTXOs j)
                  \<and> selectedUTXOs = take k sortedUTXOs \<and> fee = fee_for k rate)"
    for selectedUTXOs fee by (rule iff)
  show "fst (SelectUTXOs m address amount feeRate) = Inr (selectedUTXOs, fee) \<longrightarrow>
            amount + fee \<le>s totalValue selectedUTXOs
            \<and> (1 < length selectedUTXOs \<or> 0 <s amount + fee_for 0 rate \<longrightarrow>
                 \<not> amount + fee_for (length selectedUTXOs - 1) rate
                      \<le>s totalValue (butlast selectedUTXOs))"
    for selectedUTXOs fee
  proof
    assume "fst (SelectUTXOs m address amount feeRate) = Inr (selectedUTXOs, fee)"
    with iff obtain k where k: "0 < k" "k \<le> length sortedUTXOs" "funded amount rate sortedUTXOs k"
        "\<forall>j. 0 < j \<and> j < k \<longrightarrow> \<not> funded amount rate sortedUTXOs j"
        "selectedUTXOs = take k sortedUTXOs" "fee = fee_for k rate"
      by blast
    have len: "length selectedUTXOs = k" using k by simp
    have bl: "butlast selectedUTXOs = take (k - 1) sortedUTXOs"
      using k by (simp add: butlast_take)
    have a: "amount + fee \<le>s totalValue selectedUTXOs"
      using k by (simp add: funded_def)
    have b: "\<not> amount + fee_for (k - 1) rate \<le>s totalValue (take (k - 1) sortedUTXOs)"
      if "1 < k \<or> 0 <s amount + fee_for 0 rate"
    proof (cases "1 < k")
      case True
      then have "0 < k - 1 \<and> k - 1 < k" by simp
      with k(4) have "\<not> funded amount rate sortedUTXOs (k - 1)" by blast
      then show ?thesis by (simp add: funded_def)
    next
      case False
      with k(1) have "k - 1 = 0" by simp
      moreover from that False have "0 <s amount + fee_for 0 rate" by simp
      ultimately show ?thesis by (simp add: totalValue_def word_sle_eq word_sless_alt)
    qed
    show "amount + fee \<le>s totalValue selectedUTXOs
            \<and> (1 < length selectedUTXOs \<or> 0 <s amount + fee_for 0 rate \<longrightarrow>
                 \<not> amount + fee_for (length selectedUTXOs - 1) rate
                      \<le>s totalValue (butlast selectedUTXOs))"
      using a b by (simp add: len bl)
  qed
qed

lemma select_overflowing_amount:
  "fst (SelectUTXOs (fresh_manager getDefaultConfig [response ''a'' 1000 6]) ''sender''
          9223372036854775807 5)
     = Inr ([native_utxo ''a'' 1000], 1130)"
  apply (simp only: fst_SelectUTXOs_fresh)
  apply (simp add: select_from_def getDefaultConfig_def getDefaultTransactionConfig_def
      getDefaultUTXOConfig_def Let_def utxo_of_response_native)
  apply (simp add: response_def utxo_of_response_native [unfolded response_def]
      sortUTXOsByValue_def bubble_outer.simps fee_for_def word_sless_alt word_sle_eq
      native_utxo_def)
  done

text \<open>
  C1 (as amended). Let the fetch of \<^verbatim>\<open>SelectUTXOs\<close> return \<open>allUTXOs\<close>, let
  \<open>sortedUTXOs\<close> be the sort of the candidates and \<open>rate\<close> the fee rate in effect.
  The sort is a value-descending permutation of the candidates. \<^verbatim>\<open>SelectUTXOs\<close>
  returns a set and a fee exactly when there are candidates, the rate is not above the
  configured maximum and some non-empty prefix passes the funding check of the code
  (an \<^verbatim>\<open>int64\<close> comparison); it then returns the first such prefix, of length
  \<open>k\<close>, with the fee \<open>(10 + 148 k + 34 + 34) * rate\<close>. When the amount and the rate
  are positive, no candidate value is negative, and neither the candidates' total nor
  the amount plus the fee for all candidates exceeds the largest \<^verbatim>\<open>int64\<close>, the
  funding check is the comparison over the integers; so the returned total is at
  least the amount plus the returned fee, and with the last-added input removed and
  the fee recomputed for one input fewer the total is below the amount plus fee.
\<close>

theorem SelectUTXOs_greedy_prefix:
  assumes fetch: "GetUTXOs m address = (Inr allUTXOs, m')"
    and txConfig_def: "txConfig = cfg_Transaction (configManager m)"
    and sortedUTXOs_def: "sortedUTXOs = sortUTXOsByValue (candidates txConfig allUTXOs)"
    and rate_def: "rate = effective_rate txConfig feeRate"
  shows "sorted_desc Value sortedUTXOs \<and> mset sortedUTXOs = mset (candidates txConfig allUTXOs)
    \<and> (\<forall>selectedUTXOs fee.
          fst (SelectUTXOs m address amount feeRate) = Inr (selectedUTXOs, fee) \<longleftrightarrow>
            candidates txConfig allUTXOs \<noteq> [] \<and> \<not> MaxFeeRate txConfig <s rate
            \<and> (\<exists>k. 0 < k \<and> k \<le> length sortedUTXOs
                  \<and> funded amount rate sortedUTXOs k
                  \<and> (\<forall>j. 0 < j \<and> j < k \<longrightarrow> \<not> funded amount rate sortedUTXOs j)
                  \<and> selectedUTXOs = take k sortedUTXOs \<and> fee = fee_for k rate))
    \<and> (0 <s amount \<and> 0 <s rate
         \<and> sint amount + int_fee (length sortedUTXOs) rate < 2 ^ 63
         \<and> (\<forall>j. j \<le> length sortedUTXOs \<longrightarrow>
               - (2 ^ 63) \<le> int_total (take j sortedUTXOs)
               \<and> int_total (take j sortedUTXOs) < 2 ^ 63) \<longrightarrow>
           (\<forall>j. j \<le> length sortedUTXOs \<longrightarrow>
              (funded amount rate sortedUTXOs j \<longleftrightarrow>
                 sint amount + int_fee j rate \<le> int_total (take j sortedUTXOs)))
           \<and> (\<forall>selectedUTXOs fee.
                 fst (SelectUTXOs m address amount feeRate) = Inr (selectedUTXOs, fee) \<longrightarrow>
                   sint fee = int_fee (length selectedUTXOs) rate
                   \<and> sint amount + sint fee \<le> int_total selectedUTXOs
                   \<and> int_total (butlast selectedUTXOs)
                       < sint amount + int_fee (length selectedUTXOs - 1) rate))"
proof -
  note ff = SelectUTXOs_first_funded [OF fetch txConfig_def sortedUTXOs_def rate_def, of amount]
  have A: "sorted_desc Value sortedUTXOs" "mset sortedUTXOs = mset (candidates txConfig allUTXOs)"
    using ff by blast+
  have B: "fst (SelectUTXOs m address amount feeRate) = Inr (selectedUTXOs, fee) \<longleftrightarrow>
            candidates txConfig allUTXOs \<noteq> [] \<and> \<not> MaxFeeRate txConfig <s rate
            \<and> (\<exists>k. 0 < k \<and> k \<le> length sortedUTXOs
                  \<and> funded amount rate sortedUTXOs k
                  \<and> (\<forall>j. 0 < j \<and> j < k \<longrightarrow> \<not> funded amount rate sortedUTXOs j)
                  \<and> selectedUTXOs = take k sortedUTXOs \<and> fee = fee_for k rate)"
    for selectedUTXOs fee
    using ff by blast
  have C: "(\<forall>j. j \<le> length sortedUTXOs \<longrightarrow>
              (funded amount rate sortedUTXOs j \<longleftrightarrow>
                 sint amount + int_fee j rate \<le> int_total (take j sortedUTXOs)))
           \<and> (\<forall>selectedUTXOs fee.
                 fst (SelectUTXOs m address amount feeRate) = Inr (selectedUTXOs, fee) \<longrightarrow>
                   sint fee = int_fee (length selectedUTXOs) rate
                   \<and> sint amount + sint fee \<le> int_total selectedUTXOs
                   \<and> int_total (butlast selectedUTXOs)
                       < sint amount + int_fee (length selectedUTXOs - 1) rate)"
    if h: "0 <s amount \<and> 0 <s rate
         \<and> sint amount + int_fee (length sortedUTXOs) rate < 2 ^ 63
         \<and> (\<forall>j. j \<le> length sortedUTXOs \<longrightarrow>
               - (2 ^ 63) \<le> int_total (take j sortedUTXOs)
               \<and> int_total (take j sortedUTXOs) < 2 ^ 63)"
  proof (intro conjI allI impI)
    fix j assume j: "j \<le> length sortedUTXOs"
    show "funded amount rate sortedUTXOs j \<longleftrightarrow>
                 sint amount + int_fee j rate \<le> int_total (take j sortedUTXOs)"
    proof (rule funded_int(1))
      show "0 <s amount" "0 <s rate" "sint amount + int_fee (length sortedUTXOs) rate < 2 ^ 63"
        using h by simp_all
      show "j \<le> length sortedUTXOs" by (rule j)
      show "- (2 ^ 63) \<le> int_total (take j sortedUTXOs)" "int_total (take j sortedUTXOs) < 2 ^ 63"
        using h j by blast+
    qed
  next
    fix selectedUTXOs fee
    assume "fst (SelectUTXOs m address amount feeRate) = Inr (selectedUTXOs, fee)"
    with B obtain k where k: "0 < k" "k \<le> length sortedUTXOs" "funded amount rate sortedUTXOs k"
        "\<forall>j. 0 < j \<and> j < k \<longrightarrow> \<not> funded amount rate sortedUTXOs j"
        "selectedUTXOs = take k sortedUTXOs" "fee = fee_for k rate"
      by blast
    have len: "length selectedUTXOs = k" using k by simp
    have bl: "butlast selectedUTXOs = take (k - 1) sortedUTXOs"
      using k by (simp add: butlast_take)
    have hh: "0 <s amount" "0 <s rate" "sint amount + int_fee (length sortedUTXOs) rate < 2 ^ 63"
      using h by simp_all
    have k1: "k - 1 \<le> length sortedUTXOs" using k(2) by simp
    have tk: "- (2 ^ 63) \<le> int_total (take k sortedUTXOs)" "int_total (take k sortedUTXOs) < 2 ^ 63"
      using h k(2) by blast+
    have tk1: "- (2 ^ 63) \<le> int_total (take (k - 1) sortedUTXOs)"
        "int_total (take (k - 1) sortedUTXOs) < 2 ^ 63"
      using h k1 by blast+
    have fk: "funded amount rate sortedUTXOs k \<longleftrightarrow>
         sint amount + int_fee k rate \<le> int_total (take k sortedUTXOs)"
      using hh k(2) tk by (rule funded_int(1))
    have sk: "sint (fee_for k rate) = int_fee k rate"
      using hh k(2) tk by (rule funded_int(2))
    have fk1: "funded amount rate sortedUTXOs (k - 1) \<longleftrightarrow>
         sint amount + int_fee (k - 1) rate \<le> int_total (take (k - 1) sortedUTXOs)"
      using hh k1 tk1 by (rule funded_int(1))
    have nf: "\<not> funded amount rate sortedUTXOs (k - 1)"
    proof (cases "1 < k")
      case True
      then have "0 < k - 1 \<and> k - 1 < k" by simp
      with k(4) show ?thesis by blast
    next
      case False
      with k(1) have z: "k - 1 = 0" by simp
      have "0 < sint amount" "0 < sint rate" using h by (simp_all add: word_sless_alt)
      then have "0 < sint amount + int_fee 0 rate" by (simp add: int_fee_def)
      then have "\<not> sint amount + int_fee (k - 1) rate \<le> int_total (take (k - 1) sortedUTXOs)"
        using z by (simp add: int_total_def)
      with fk1 show ?thesis by simp
    qed
    show "sint fee = int_fee (length selectedUTXOs) rate" using sk k(6) len by simp
    show "sint amount + sint fee \<le> int_total selectedUTXOs"
      using k(3) fk sk k(5,6) by simp
    show "int_total (butlast selectedUTXOs) < sint amount + int_fee (length selectedUTXOs - 1) rate"
      using nf fk1 by (simp add: len bl)
  qed
  from A B C show ?thesis by blast
qed

theorem SelectUTXOs_greedy_prefix_witness:
  "GetUTXOs (fresh_manager getDefaultConfig
       [response ''a'' 30000 6, response ''b'' 5000 6, response ''c'' 50000 6]) ''sender''
     = (Inr [native_utxo ''a'' 30000, native_utxo ''b'' 5000, native_utxo ''c'' 50000],
        snd (GetUTXOs (fresh_manager getDefaultConfig
          [response ''a'' 30000 6, response ''b'' 5000 6, response ''c'' 50000 6]) ''sender''))
   \<and> fst (SelectUTXOs (fresh_manager getDefaultConfig
          [response ''a'' 30000 6, response ''b'' 5000 6, response ''c'' 50000 6])
          ''sender'' 60000 5)
       = Inr ([native_utxo ''c'' 50000, native_utxo ''a'' 30000], 1870)
   \<and> sint (60000 :: int64) + sint (1870 :: int64)
       \<le> int_total [native_utxo ''c'' 50000, native_utxo ''a'' 30000]
   \<and> int_total (butlast [native_utxo ''c'' 50000, native_utxo ''a'' 30000])
       < sint (60000 :: int64) + int_fee 1 5"
proof -
  let ?M = "fresh_manager getDefaultConfig
       [response ''a'' 30000 6, response ''b'' 5000 6, response ''c'' 50000 6]"
  let ?U = "[native_utxo ''a'' 30000, native_utxo ''b'' 5000, native_utxo ''c'' 50000]"
  let ?S = "[native_utxo ''c'' 50000, native_utxo ''a'' 30000, native_utxo ''b'' 5000]"
  have "fst (GetUTXOs ?M ''sender'') = Inr ?U"
    by (simp only: GetUTXOs_fresh convert_three)
  then have g: "GetUTXOs ?M ''sender'' = (Inr ?U, snd (GetUTXOs ?M ''sender''))"
    by (metis prod.collapse)
  have c: "cfg_Transaction (configManager ?M) = getDefaultTransactionConfig"
    by (simp add: fresh_manager_def getDefaultConfig_def)
  have cand: "candidates getDefaultTransactionConfig ?U = ?U"
    by (simp add: candidates_def getDefaultTransactionConfig_def native_utxo_def)
  have srt: "sortUTXOsByValue (candidates (cfg_Transaction (configManager ?M)) ?U) = ?S"
    by (simp only: c cand sort_three)
  have rt: "effective_rate (cfg_Transaction (configManager ?M)) 5 = 5"
    by (simp add: c effective_rate_def getDefaultTransactionConfig_def word_sless_alt)
  have p: "- (2 ^ 63) \<le> int_total (take j ?S) \<and> int_total (take j ?S) < 2 ^ 63"
    if "j \<le> length ?S" for j
  proof -
    from that have "j = 0 \<or> j = 1 \<or> j = 2 \<or> j = 3" by auto
    then show ?thesis
      by (auto simp: native_utxo_def int_total_def take_Suc_Cons numeral_2_eq_2 numeral_3_eq_3)
  qed
  have h: "0 <s (60000 :: int64) \<and> 0 <s (5 :: int64)
      \<and> sint (60000 :: int64) + int_fee (length ?S) 5 < 2 ^ 63
      \<and> (\<forall>j. j \<le> length ?S \<longrightarrow>
            - (2 ^ 63) \<le> int_total (take j ?S) \<and> int_total (take j ?S) < 2 ^ 63)"
    using p by (simp add: int_fee_def word_sless_alt)
  note t = SelectUTXOs_greedy_prefix [OF g refl refl refl, of 60000 5, unfolded srt rt]
  from t h have "\<forall>selectedUTXOs fee.
      fst (SelectUTXOs ?M ''sender'' 60000 5) = Inr (selectedUTXOs, fee) \<longrightarrow>
        sint fee = int_fee (length selectedUTXOs) 5
        \<and> sint (60000 :: int64) + sint fee \<le> int_total selectedUTXOs
        \<and> int_total (butlast selectedUTXOs)
            < sint (60000 :: int64) + int_fee (length selectedUTXOs - 1) 5"
    by blast
  with select_three have "sint (60000 :: int64) + sint (1870 :: int64)
        \<le> int_total [native_utxo ''c'' 50000, native_utxo ''a'' 30000]
      \<and> int_total (butlast [native_utxo ''c'' 50000, native_utxo ''a'' 30000])
        < sint (60000 :: int64) + int_fee (length [native_utxo ''c'' 50000, native_utxo ''a'' 30000] - 1) 5"
    by blast
  with select_three g show ?thesis by simp
qed

text \<open>
  C1 as stated fails when the amount plus the fee exceeds the largest \<^verbatim>\<open>int64\<close>:
  with the default configuration, one output of value 1000, the amount \<open>2^63 - 1\<close>
  (which \<^verbatim>\<open>validateParams\<close> admits) and the fee rate 5, the sum wraps to a negative
  number, the selector returns that output with the fee 1130, and the returned total
  1000 is below the amount plus the returned fee.
\<close>

theorem SelectUTXOs_overflow_counterexample:
  "fst (SelectUTXOs (fresh_manager getDefaultConfig [response ''a'' 1000 6]) ''sender''
          9223372036854775807 5)
     = Inr ([native_utxo ''a'' 1000], 1130)
   \<and> int_total [native_utxo ''a'' 1000]
       < sint (9223372036854775807 :: int64) + sint (1130 :: int64)"
  by (simp add: select_overflowing_amount int_total_def native_utxo_def)

section \<open>Output discovery: filtering, truncation and the native tag\<close>

text \<open>
  C7. When the cache has no valid entry and the service answers with
  \<open>responses\<close>, \<^verbatim>\<open>GetUTXOs\<close> returns exactly the responses whose confirmation count
  is at least the configured minimum, in the order received, cut to the configured
  maximum number of outputs per query, each tagged native (\<^verbatim>\<open>IsNative\<close> true, empty
  token id, zero token amount). No operation of the manager puts an output that is
  not tagged native into the cache, so from a cache that holds none (the empty cache
  of a new manager) \<^verbatim>\<open>GetUTXOs\<close> never returns one.
\<close>

theorem GetUTXOs_filters_and_tags:
  assumes cfg: "utxoConfig = cfg_UTXO (configManager m)"
  shows "(fst (getFromCache m address) = None
          \<and> unspent_reply m (unspent_url m address) = Inr responses \<longrightarrow>
            fst (GetUTXOs m address) =
              Inr (map utxo_of_response
                    (take (nat (MaxUTXOsPerQuery utxoConfig))
                      (filter (\<lambda>resp. MinConfirmations utxoConfig \<le> resp_Confirmations resp)
                         responses)))
            \<and> list_all native_tagged
                  (map utxo_of_response
                    (take (nat (MaxUTXOsPerQuery utxoConfig))
                      (filter (\<lambda>resp. MinConfirmations utxoConfig \<le> resp_Confirmations resp)
                         responses))))
       \<and> (cache_native m \<longrightarrow>
            cache_native (snd (GetUTXOs m address))
            \<and> cache_native (snd (GetEnhancedBalance m address))
            \<and> cache_native (ClearCache m)
            \<and> cache_native (ClearCacheForAddress m address)
            \<and> (\<forall>utxos. fst (GetUTXOs m address) = Inr utxos \<longrightarrow> list_all native_tagged utxos))"
proof (intro conjI impI)
  assume a: "fst (getFromCache m address) = None
          \<and> unspent_reply m (unspent_url m address) = Inr responses"
  then show "fst (GetUTXOs m address) =
              Inr (map utxo_of_response
                    (take (nat (MaxUTXOsPerQuery utxoConfig))
                      (filter (\<lambda>resp. MinConfirmations utxoConfig \<le> resp_Confirmations resp)
                         responses)))"
    by (simp add: GetUTXOs_miss convert_loop_eq cfg)
  show "list_all native_tagged
                  (map utxo_of_response
                    (take (nat (MaxUTXOsPerQuery utxoConfig))
                      (filter (\<lambda>resp. MinConfirmations utxoConfig \<le> resp_Confirmations resp)
                         responses)))"
    by (simp add: list_all_iff native_tagged_def utxo_of_response_def)
next
  assume n: "cache_native m"
  show "cache_native (snd (GetUTXOs m address))"
    using n by (rule cache_native_GetUTXOs)
  show "cache_native (ClearCache m)"
    by (simp add: cache_native_def ClearCache_def)
  show "cache_native (ClearCacheForAddress m address)"
    using n by (simp add: cache_native_def ClearCacheForAddress_def)
  show "\<forall>utxos. fst (GetUTXOs m address) = Inr utxos \<longrightarrow> list_all native_tagged utxos"
    using cache_native_GetUTXOs(2) [OF n] by blast
  show "cache_native (snd (GetEnhancedBalance m address))"
    unfolding cache_native_def
  proof (intro allI impI)
    fix other entry
    assume e: "cache (snd (GetEnhancedBalance m address)) other = Some entry"
    show "list_all native_tagged (UTXOs entry)"
    proof (cases "other = address")
      case False
      with e GetEnhancedBalance_cache [of address m] have "cache m other = Some entry" by simp
      with n show ?thesis by (auto simp: cache_native_def)
    next
      case True
      from GetEnhancedBalance_cache [of address m]
      consider "cache (snd (GetEnhancedBalance m address)) address = cache m address"
        | old balance where "cache m address = Some old"
            "cache (snd (GetEnhancedBalance m address)) address = Some (old\<lparr>Balance := Some balance\<rparr>)"
        | utxos balance k where
            "utxos = [] \<or> (\<exists>responses. utxos = convert_loop (cfg_UTXO (configManager m)) responses [])"
            "cache (snd (GetEnhancedBalance m address)) address
               = Some \<lparr>UTXOs = utxos, Balance = Some balance, Timestamp = clock m k\<rparr>"
        by blast
      then show ?thesis
      proof cases
        case 1
        with e True n show ?thesis by (auto simp: cache_native_def)
      next
        case 2
        with e True have "UTXOs entry = UTXOs old" by auto
        with 2 n show ?thesis by (auto simp: cache_native_def)
      next
        case 3
        with e True have "UTXOs entry = utxos" by auto
        with 3(1) show ?thesis by (auto simp: native_tagged_convert_loop)
      qed
    qed
  qed
qed

theorem GetUTXOs_filters_and_tags_witness:
  "fst (getFromCache (fresh_manager getDefaultConfig
          [response ''a'' 30000 6, response ''u'' 7000 0, response ''c'' 50000 6]) ''sender'') = None
   \<and> cache_native (fresh_manager getDefaultConfig
          [response ''a'' 30000 6, response ''u'' 7000 0, response ''c'' 50000 6])
   \<and> fst (GetUTXOs (fresh_manager getDefaultConfig
          [response ''a'' 30000 6, response ''u'' 7000 0, response ''c'' 50000 6]) ''sender'')
       = Inr [native_utxo ''a'' 30000, native_utxo ''c'' 50000]
   \<and> list_all native_tagged [native_utxo ''a'' 30000, native_utxo ''c'' 50000]
   \<and> cache_native (snd (GetUTXOs (fresh_manager getDefaultConfig
          [response ''a'' 30000 6, response ''u'' 7000 0, response ''c'' 50000 6]) ''sender''))"
proof -
  let ?R = "[response ''a'' 30000 6, response ''u'' 7000 0, response ''c'' 50000 6]"
  let ?M = "fresh_manager getDefaultConfig ?R"
  have miss: "fst (getFromCache ?M ''sender'') = None"
    by (simp add: getFromCache_def fresh_manager_def Let_def)
  have rep: "unspent_reply ?M (unspent_url ?M ''sender'') = Inr ?R"
    by (simp add: fresh_manager_def)
  have nat: "cache_native ?M"
    by (simp add: cache_native_def fresh_manager_def)
  have ev: "map utxo_of_response
       (take (nat (MaxUTXOsPerQuery (cfg_UTXO (configManager ?M))))
          (filter (\<lambda>resp. MinConfirmations (cfg_UTXO (configManager ?M)) \<le> resp_Confirmations resp) ?R))
     = [native_utxo ''a'' 30000, native_utxo ''c'' 50000]"
    by (simp add: fresh_manager_def getDefaultConfig_def getDefaultUTXOConfig_def
        utxo_of_response_native)
       (simp add: response_def)
  from GetUTXOs_filters_and_tags [OF refl, of ?M "''sender''" ?R] miss rep nat ev
  show ?thesis by simp
qed

section \<open>Cache lookups expire lazily\<close>

lemma cacheTTL_in_range:
  assumes "- 9223372036 \<le> CacheExpiry utxoConfig" and "CacheExpiry utxoConfig \<le> 9223372036"
  shows "sint (cacheTTL utxoConfig) = CacheExpiry utxoConfig * 1000000000"
proof -
  have e: "cacheTTL utxoConfig = word_of_int (CacheExpiry utxoConfig * 1000000000)"
    by (simp add: cacheTTL_def)
  have "- (2 ^ 63) \<le> CacheExpiry utxoConfig * 1000000000"
    "CacheExpiry utxoConfig * 1000000000 < 2 ^ 63"
    using assms by simp_all
  then have "sint (word_of_int (CacheExpiry utxoConfig * 1000000000) :: int64)
      = CacheExpiry utxoConfig * 1000000000"
    by (rule sint_word_of_int64)
  with e show ?thesis by (simp only:)
qed

lemma sint_time_Sub:
  "sint (time_Sub t u) =
     (if t - u < - (2 ^ 63) then - (2 ^ 63) else if 2 ^ 63 \<le> t - u then 2 ^ 63 - 1 else t - u)"
proof -
  have "sint (word_of_int (t - u) :: int64) = t - u"
    if "\<not> t - u < - (2 ^ 63)" "\<not> 2 ^ 63 \<le> t - u"
    using that by (intro sint_word_of_int64) simp_all
  then show ?thesis
    unfolding time_Sub_def by (simp only: split: if_splits) simp
qed

lemma time_Sub_le_ttl:
  assumes "- 9223372036 \<le> CacheExpiry utxoConfig" and "CacheExpiry utxoConfig \<le> 9223372036"
  shows "time_Sub t u \<le>s cacheTTL utxoConfig \<longleftrightarrow> t - u \<le> CacheExpiry utxoConfig * 1000000000"
  using assms by (simp add: word_sle_eq cacheTTL_in_range sint_time_Sub)

text \<open>
  C6 (as amended). \<^verbatim>\<open>getFromCache\<close> returns the entry stored for the address exactly
  when caching is enabled and the age \<^verbatim>\<open>time.Since(entry.Timestamp)\<close> is at most the
  configured TTL, both as \<^verbatim>\<open>Duration\<close> values; the lookup leaves the cache as it is
  (nothing is evicted). When the TTL in nanoseconds is an \<^verbatim>\<open>int64\<close> (at most
  9223372036 seconds) that is \<open>now - timestamp \<le> ttl\<close> over the integers. An entry
  whose age exceeds the TTL is treated as absent, and \<^verbatim>\<open>GetUTXOs\<close> then asks the
  service again and answers from its reply.
\<close>

theorem getFromCache_lazy_expiry:
  assumes cfg: "utxoConfig = cfg_UTXO (configManager m)"
    and now: "now = clock m (ticks m)"
  shows "(fst (getFromCache m address) = Some entry \<longleftrightarrow>
            EnableCaching utxoConfig \<and> cache m address = Some entry
            \<and> time_Sub now (Timestamp entry) \<le>s cacheTTL utxoConfig)
       \<and> cache (snd (getFromCache m address)) = cache m
       \<and> (- 9223372036 \<le> CacheExpiry utxoConfig \<and> CacheExpiry utxoConfig \<le> 9223372036 \<longrightarrow>
              (time_Sub now (Timestamp entry) \<le>s cacheTTL utxoConfig
                 \<longleftrightarrow> now - Timestamp entry \<le> CacheExpiry utxoConfig * 1000000000))
       \<and> (EnableCaching utxoConfig \<and> cache m address = Some entry
            \<and> \<not> time_Sub now (Timestamp entry) \<le>s cacheTTL utxoConfig \<longrightarrow>
              fst (getFromCache m address) = None
              \<and> requests (snd (GetUTXOs m address)) = requests m @ [unspent_url m address]
              \<and> fst (GetUTXOs m address) =
                  (case unspent_reply m (unspent_url m address) of
                     Inl err \<Rightarrow> Inl (GetUTXOsFailed (RequestFailed err))
                   | Inr responses \<Rightarrow> Inr (convert_loop utxoConfig responses [])))"
proof (intro conjI impI)
  show "fst (getFromCache m address) = Some entry \<longleftrightarrow>
            EnableCaching utxoConfig \<and> cache m address = Some entry
            \<and> time_Sub now (Timestamp entry) \<le>s cacheTTL utxoConfig"
    unfolding cfg now by (rule getFromCache_Some)
  show "cache (snd (getFromCache m address)) = cache m"
    by (rule getFromCache_fields)
next
  assume "- 9223372036 \<le> CacheExpiry utxoConfig \<and> CacheExpiry utxoConfig \<le> 9223372036"
  then show "time_Sub now (Timestamp entry) \<le>s cacheTTL utxoConfig
                 \<longleftrightarrow> now - Timestamp entry \<le> CacheExpiry utxoConfig * 1000000000"
    by (intro time_Sub_le_ttl) simp_all
next
  assume a: "EnableCaching utxoConfig \<and> cache m address = Some entry
            \<and> \<not> time_Sub now (Timestamp entry) \<le>s cacheTTL utxoConfig"
  then show miss: "fst (getFromCache m address) = None"
    unfolding cfg now
    by (simp add: getFromCache_def Let_def time_Since_def time_Now_def word_sle_eq word_sless_alt)
  then show "requests (snd (GetUTXOs m address)) = requests m @ [unspent_url m address]"
    by (rule GetUTXOs_miss)
  from miss show "fst (GetUTXOs m address) =
                  (case unspent_reply m (unspent_url m address) of
                     Inl err \<Rightarrow> Inl (GetUTXOsFailed (RequestFailed err))
                   | Inr responses \<Rightarrow> Inr (convert_loop utxoConfig responses []))"
    unfolding cfg by (rule GetUTXOs_miss)
qed

theorem getFromCache_lazy_expiry_witness:
  "EnableCaching (cfg_UTXO (configManager (cached_manager getDefaultConfig (entry_at 0) 301000000000)))
   \<and> cache (cached_manager getDefaultConfig (entry_at 0) 301000000000) ''sender'' = Some (entry_at 0)
   \<and> \<not> clock (cached_manager getDefaultConfig (entry_at 0) 301000000000)
            (ticks (cached_manager getDefaultConfig (entry_at 0) 301000000000))
          - Timestamp (entry_at 0)
          \<le> CacheExpiry (cfg_UTXO (configManager
                 (cached_manager getDefaultConfig (entry_at 0) 301000000000))) * 1000000000
   \<and> fst (getFromCache (cached_manager getDefaultConfig (entry_at 0) 301000000000) ''sender'') = None
   \<and> requests (snd (GetUTXOs (cached_manager getDefaultConfig (entry_at 0) 301000000000) ''sender''))
       = requests (cached_manager getDefaultConfig (entry_at 0) 301000000000)
         @ [unspent_url (cached_manager getDefaultConfig (entry_at 0) 301000000000) ''sender'']"
proof -
  let ?M = "cached_manager getDefaultConfig (entry_at 0) 301000000000"
  have h: "EnableCaching (cfg_UTXO (configManager ?M))
      \<and> cache ?M ''sender'' = Some (entry_at 0)
      \<and> - 9223372036 \<le> CacheExpiry (cfg_UTXO (configManager ?M))
      \<and> CacheExpiry (cfg_UTXO (configManager ?M)) \<le> 9223372036
      \<and> \<not> clock ?M (ticks ?M) - Timestamp (entry_at 0)
            \<le> CacheExpiry (cfg_UTXO (configManager ?M)) * 1000000000"
    by (simp add: cached_manager_def fresh_manager_def getDefaultConfig_def
        getDefaultUTXOConfig_def entry_at_def)
  with getFromCache_lazy_expiry [OF refl refl, of ?M "''sender''" "entry_at 0"]
  show ?thesis by blast
qed

text \<open>
  C6 as stated fails in three ways, with an entry captured at instant 0. At an age
  of exactly the TTL (300 seconds, default configuration) the entry is still
  returned. With caching disabled the entry is not returned at age 0. With a TTL of
  9223372037 seconds, whose nanoseconds wrap to a negative \<^verbatim>\<open>Duration\<close>, the entry is
  not returned at age 0 either.
\<close>

theorem getFromCache_boundary_counterexample:
  "clock (cached_manager getDefaultConfig (entry_at 0) 300000000000)
       (ticks (cached_manager getDefaultConfig (entry_at 0) 300000000000))
     - Timestamp (entry_at 0)
     = CacheExpiry (cfg_UTXO (configManager (cached_manager getDefaultConfig (entry_at 0) 300000000000)))
       * 1000000000
   \<and> fst (getFromCache (cached_manager getDefaultConfig (entry_at 0) 300000000000) ''sender'')
       = Some (entry_at 0)
   \<and> fst (getFromCache
          (cached_manager
             (getDefaultConfig\<lparr>cfg_UTXO := getDefaultUTXOConfig\<lparr>EnableCaching := False\<rparr>\<rparr>)
             (entry_at 0) 0) ''sender'') = None
   \<and> fst (getFromCache
          (cached_manager
             (getDefaultConfig\<lparr>cfg_UTXO := getDefaultUTXOConfig\<lparr>CacheExpiry := 9223372037\<rparr>\<rparr>)
             (entry_at 0) 0) ''sender'') = None"
  by (simp add: cached_manager_def fresh_manager_def getDefaultConfig_def getDefaultUTXOConfig_def
      entry_at_def getFromCache_def Let_def time_Since_def time_Now_def time_Sub_def cacheTTL_def
      word_sless_alt)

section \<open>What the operations do to the cache\<close>






section \<open>The native selector and the fee-rate bounds\<close>

lemma fst_SelectUTXOs:
  "fst (SelectUTXOs m address amount feeRate) =
     (case fst (GetUTXOs m address) of
        Inl err \<Rightarrow> Inl err
      | Inr allUTXOs \<Rightarrow>
          select_from (cfg_Transaction (configManager m)) address allUTXOs amount feeRate)"
  by (cases "GetUTXOs m address"; cases "fst (GetUTXOs m address)")
     (simp_all add: SelectUTXOs_def)

lemma effective_rate_default:
  "effective_rate txConfig (DefaultFeeRate txConfig) = DefaultFeeRate txConfig"
  by (simp add: effective_rate_def)

lemma select_from_below_minimum:
  assumes "feeRate <s MinFeeRate txConfig"
  shows "select_from txConfig address allUTXOs amount feeRate = Inr selected \<longleftrightarrow>
         select_from txConfig address allUTXOs amount (DefaultFeeRate txConfig) = Inr selected"
proof -
  have e: "effective_rate txConfig feeRate = DefaultFeeRate txConfig"
    using assms by (simp add: effective_rate_def)
  show ?thesis
    unfolding select_from_eq e effective_rate_default
    by (simp split: option.splits)
qed

lemma select_from_not_below_minimum_error:
  "select_from txConfig address allUTXOs amount feeRate \<noteq> Inl (FeeRateBelowMinimum rate bound)"
  unfolding select_from_eq by (simp split: option.splits)

lemma GetUTXOs_error_shape:
  "fst (GetUTXOs m address) = Inl err \<Longrightarrow> \<exists>e. err = GetUTXOsFailed e"
proof (cases "fst (getFromCache m address)")
  case None
  assume "fst (GetUTXOs m address) = Inl err"
  with None show ?thesis by (auto simp: GetUTXOs_miss split: sum.splits)
next
  case (Some entry)
  assume "fst (GetUTXOs m address) = Inl err"
  with Some show ?thesis by (simp add: GetUTXOs_hit)
qed

lemma snd_SelectUTXOs: "snd (SelectUTXOs m address amount feeRate) = snd (GetUTXOs m address)"
  by (cases "GetUTXOs m address"; cases "fst (GetUTXOs m address)")
     (simp_all add: SelectUTXOs_def)

lemma getFromCache_fresh: "fst (getFromCache (fresh_manager config responses) address) = None"
  by (simp add: getFromCache_def fresh_manager_def Let_def)

lemma requests_SelectUTXOs_fresh:
  "requests (snd (SelectUTXOs (fresh_manager config responses) address amount feeRate))
     = [unspent_url (fresh_manager config responses) address]"
  using GetUTXOs_miss(2) [OF getFromCache_fresh, of config responses address]
  by (simp add: snd_SelectUTXOs fresh_manager_def)

lemma select_one_at_rate:
  assumes "\<not> feeRate <s 1" and "\<not> 1000 <s feeRate"
  shows "fst (SelectUTXOs (fresh_manager getDefaultConfig [response ''a'' v 6]) ''sender''
            amount feeRate)
     = (if amount + 226 * feeRate \<le>s v then Inr ([native_utxo ''a'' v], 226 * feeRate)
        else Inl (InsufficientFunds (amount + 226 * feeRate) v))"
  using assms
  apply (simp only: fst_SelectUTXOs_fresh)
  apply (simp add: select_from_def getDefaultConfig_def getDefaultTransactionConfig_def
      getDefaultUTXOConfig_def Let_def utxo_of_response_native)
  apply (simp add: response_def utxo_of_response_native [unfolded response_def]
      sortUTXOsByValue_def bubble_outer.simps fee_for_def native_utxo_def)
  done

lemma select_one_above_maximum:
  "fst (SelectUTXOs (fresh_manager getDefaultConfig [response ''a'' v 6]) ''sender'' 500 2000)
     = Inl (FeeRateExceedsMaximumAllowed 2000 1000)"
  apply (simp only: fst_SelectUTXOs_fresh)
  apply (simp add: select_from_def getDefaultConfig_def getDefaultTransactionConfig_def
      getDefaultUTXOConfig_def Let_def utxo_of_response_native)
  apply (simp add: response_def utxo_of_response_native [unfolded response_def]
      sortUTXOsByValue_def bubble_outer.simps fee_for_def native_utxo_def word_sless_alt)
  done

lemma select_none_above_maximum:
  "fst (SelectUTXOs (fresh_manager getDefaultConfig []) ''sender'' 500 2000)
     = Inl (NoUTXOsAvailable ''sender'')"
  by (simp only: fst_SelectUTXOs_fresh) (simp add: select_from_def)

lemma select_one_stale_fee:
  "fst (SelectUTXOs (fresh_manager getDefaultConfig [response ''a'' 1100 6]) ''sender'' 1000 0)
     = Inl (InsufficientFunds 1000 1100)"
  apply (simp only: fst_SelectUTXOs_fresh)
  apply (simp add: select_from_def getDefaultConfig_def getDefaultTransactionConfig_def
      getDefaultUTXOConfig_def Let_def utxo_of_response_native)
  apply (simp add: response_def utxo_of_response_native [unfolded response_def]
      sortUTXOsByValue_def bubble_outer.simps fee_for_def native_utxo_def word_sless_alt
      word_sle_eq)
  done

text \<open>
  C4 (as amended). With \<open>rate\<close> the fee rate in effect: a supplied rate below the
  configured minimum is replaced by the configured default and the call returns what
  it returns for the default rate, with no error about the low rate. The call fails
  with the out-of-range error exactly when the outputs have been fetched, at least
  one of them is a candidate and the rate in effect is above the configured maximum;
  the error carries that rate and the maximum. A failed fetch is reported as it is,
  and an empty output list or an empty candidate list is reported whatever the rate.
\<close>

theorem SelectUTXOs_fee_rate_bounds:
  assumes txConfig_def: "txConfig = cfg_Transaction (configManager m)"
    and rate_def: "rate = effective_rate txConfig feeRate"
  shows "(feeRate <s MinFeeRate txConfig \<longrightarrow>
            rate = DefaultFeeRate txConfig
            \<and> (\<forall>selected. fst (SelectUTXOs m address amount feeRate) = Inr selected \<longleftrightarrow>
                  fst (SelectUTXOs m address amount (DefaultFeeRate txConfig)) = Inr selected))
       \<and> (\<not> feeRate <s MinFeeRate txConfig \<longrightarrow> rate = feeRate)
       \<and> (\<forall>r bound. fst (SelectUTXOs m address amount feeRate) \<noteq> Inl (FeeRateBelowMinimum r bound))
       \<and> (\<forall>allUTXOs. fst (GetUTXOs m address) = Inr allUTXOs
              \<and> candidates txConfig allUTXOs \<noteq> [] \<and> MaxFeeRate txConfig <s rate \<longrightarrow>
            fst (SelectUTXOs m address amount feeRate)
              = Inl (FeeRateExceedsMaximumAllowed rate (MaxFeeRate txConfig)))
       \<and> (\<forall>r bound. fst (SelectUTXOs m address amount feeRate)
              = Inl (FeeRateExceedsMaximumAllowed r bound) \<longrightarrow>
            r = rate \<and> bound = MaxFeeRate txConfig \<and> MaxFeeRate txConfig <s rate
            \<and> (\<exists>allUTXOs. fst (GetUTXOs m address) = Inr allUTXOs
                  \<and> candidates txConfig allUTXOs \<noteq> []))
       \<and> (\<forall>err. fst (GetUTXOs m address) = Inl err \<longrightarrow>
            fst (SelectUTXOs m address amount feeRate) = Inl err)
       \<and> (\<forall>allUTXOs. fst (GetUTXOs m address) = Inr allUTXOs
              \<and> candidates txConfig allUTXOs = [] \<longrightarrow>
            fst (SelectUTXOs m address amount feeRate)
              = (if allUTXOs = [] then Inl (NoUTXOsAvailable address) else Inl NoSuitableUTXOs))"
proof -
  have 1: "feeRate <s MinFeeRate txConfig \<longrightarrow>
            rate = DefaultFeeRate txConfig
            \<and> (\<forall>selected. fst (SelectUTXOs m address amount feeRate) = Inr selected \<longleftrightarrow>
                  fst (SelectUTXOs m address amount (DefaultFeeRate txConfig)) = Inr selected)"
  proof (intro impI conjI allI)
    assume b: "feeRate <s MinFeeRate txConfig"
    then show "rate = DefaultFeeRate txConfig" by (simp add: rate_def effective_rate_def)
    fix selected
    show "fst (SelectUTXOs m address amount feeRate) = Inr selected \<longleftrightarrow>
                  fst (SelectUTXOs m address amount (DefaultFeeRate txConfig)) = Inr selected"
      using select_from_below_minimum [OF b]
      by (cases "fst (GetUTXOs m address)") (simp_all add: fst_SelectUTXOs txConfig_def)
  qed
  have 2: "\<not> feeRate <s MinFeeRate txConfig \<longrightarrow> rate = feeRate"
    by (simp add: rate_def effective_rate_def)
  have 3: "\<forall>r bound. fst (SelectUTXOs m address amount feeRate) \<noteq> Inl (FeeRateBelowMinimum r bound)"
    using select_from_not_below_minimum_error GetUTXOs_error_shape [of m address]
    by (cases "fst (GetUTXOs m address)") (auto simp: fst_SelectUTXOs)
  have 4: "\<forall>allUTXOs. fst (GetUTXOs m address) = Inr allUTXOs
              \<and> candidates txConfig allUTXOs \<noteq> [] \<and> MaxFeeRate txConfig <s rate \<longrightarrow>
            fst (SelectUTXOs m address amount feeRate)
              = Inl (FeeRateExceedsMaximumAllowed rate (MaxFeeRate txConfig))"
    by (auto simp: fst_SelectUTXOs txConfig_def rate_def select_from_eq candidates_def)
  have 5: "\<forall>r bound. fst (SelectUTXOs m address amount feeRate)
              = Inl (FeeRateExceedsMaximumAllowed r bound) \<longrightarrow>
            r = rate \<and> bound = MaxFeeRate txConfig \<and> MaxFeeRate txConfig <s rate
            \<and> (\<exists>allUTXOs. fst (GetUTXOs m address) = Inr allUTXOs
                  \<and> candidates txConfig allUTXOs \<noteq> [])"
  proof (intro allI impI)
    fix r bound
    assume a: "fst (SelectUTXOs m address amount feeRate) = Inl (FeeRateExceedsMaximumAllowed r bound)"
    show "r = rate \<and> bound = MaxFeeRate txConfig \<and> MaxFeeRate txConfig <s rate
            \<and> (\<exists>allUTXOs. fst (GetUTXOs m address) = Inr allUTXOs
                  \<and> candidates txConfig allUTXOs \<noteq> [])"
    proof (cases "fst (GetUTXOs m address)")
      case (Inl e)
      with a GetUTXOs_error_shape [of m address e] show ?thesis by (auto simp: fst_SelectUTXOs)
    next
      case (Inr allUTXOs)
      with a have "select_from txConfig address allUTXOs amount feeRate
          = Inl (FeeRateExceedsMaximumAllowed r bound)"
        by (simp add: fst_SelectUTXOs txConfig_def)
      then have "r = rate \<and> bound = MaxFeeRate txConfig \<and> MaxFeeRate txConfig <s rate
          \<and> candidates txConfig allUTXOs \<noteq> []"
        unfolding select_from_eq rate_def by (simp split: if_splits option.splits)
      with Inr show ?thesis by blast
    qed
  qed
  have 6: "\<forall>err. fst (GetUTXOs m address) = Inl err \<longrightarrow>
            fst (SelectUTXOs m address amount feeRate) = Inl err"
    by (simp add: fst_SelectUTXOs)
  have 7: "\<forall>allUTXOs. fst (GetUTXOs m address) = Inr allUTXOs
              \<and> candidates txConfig allUTXOs = [] \<longrightarrow>
            fst (SelectUTXOs m address amount feeRate)
              = (if allUTXOs = [] then Inl (NoUTXOsAvailable address) else Inl NoSuitableUTXOs)"
    by (simp add: fst_SelectUTXOs txConfig_def select_from_eq)
  show ?thesis by (intro conjI 1 2 3 4 5 6 7)
qed

theorem SelectUTXOs_fee_rate_bounds_witness:
  "(0 :: int64) <s MinFeeRate (cfg_Transaction (configManager
        (fresh_manager getDefaultConfig [response ''a'' 5000 6])))
   \<and> fst (SelectUTXOs (fresh_manager getDefaultConfig [response ''a'' 5000 6]) ''sender'' 500 5)
       = Inr ([native_utxo ''a'' 5000], 1130)
   \<and> fst (SelectUTXOs (fresh_manager getDefaultConfig [response ''a'' 5000 6]) ''sender'' 500 0)
       = Inr ([native_utxo ''a'' 5000], 1130)
   \<and> fst (GetUTXOs (fresh_manager getDefaultConfig [response ''a'' 5000 6]) ''sender'')
       = Inr [native_utxo ''a'' 5000]
   \<and> MaxFeeRate getDefaultTransactionConfig <s effective_rate getDefaultTransactionConfig 2000
   \<and> fst (SelectUTXOs (fresh_manager getDefaultConfig [response ''a'' 5000 6]) ''sender'' 500 2000)
       = Inl (FeeRateExceedsMaximumAllowed 2000 1000)"
proof -
  let ?M = "fresh_manager getDefaultConfig [response ''a'' 5000 6]"
  have c: "cfg_Transaction (configManager ?M) = getDefaultTransactionConfig"
    by (simp add: fresh_manager_def getDefaultConfig_def)
  have d: "DefaultFeeRate getDefaultTransactionConfig = 5" "MaxFeeRate getDefaultTransactionConfig = 1000"
    by (simp_all add: getDefaultTransactionConfig_def)
  have lo: "(0 :: int64) <s MinFeeRate (cfg_Transaction (configManager ?M))"
    by (simp add: c getDefaultTransactionConfig_def word_sless_alt)
  have five: "fst (SelectUTXOs ?M ''sender'' 500 5) = Inr ([native_utxo ''a'' 5000], 1130)"
    by (subst select_one_at_rate) (simp_all add: word_sless_alt word_sle_eq)
  have g: "fst (GetUTXOs ?M ''sender'') = Inr [native_utxo ''a'' 5000]"
    by (simp add: GetUTXOs_fresh getDefaultConfig_def getDefaultUTXOConfig_def
        utxo_of_response_native)
       (simp add: response_def)
  have cand: "candidates getDefaultTransactionConfig [native_utxo ''a'' 5000] \<noteq> []"
    by (simp add: candidates_def getDefaultTransactionConfig_def native_utxo_def)
  have hi: "MaxFeeRate getDefaultTransactionConfig <s effective_rate getDefaultTransactionConfig 2000"
    by (simp add: effective_rate_def getDefaultTransactionConfig_def word_sless_alt)
  have er: "effective_rate getDefaultTransactionConfig 2000 = 2000"
    by (simp add: effective_rate_def getDefaultTransactionConfig_def word_sless_alt)
  note t0 = SelectUTXOs_fee_rate_bounds
    [where m = ?M and feeRate = 0 and address = "''sender''" and amount = 500,
     OF refl refl, unfolded c d]
  note t1 = SelectUTXOs_fee_rate_bounds
    [where m = ?M and feeRate = 2000 and address = "''sender''" and amount = 500,
     OF refl refl, unfolded c]
  from t0 lo five have zero: "fst (SelectUTXOs ?M ''sender'' 500 0) = Inr ([native_utxo ''a'' 5000], 1130)"
    by (simp add: c)
  note sa = select_one_above_maximum [of 5000]
  from t1 g cand hi have "fst (SelectUTXOs ?M ''sender'' 500 2000)
      = Inl (FeeRateExceedsMaximumAllowed (effective_rate getDefaultTransactionConfig 2000)
               (MaxFeeRate getDefaultTransactionConfig))"
    by blast
  with lo five zero g hi er d show ?thesis by simp
qed

text \<open>
  C4 as stated fails in two ways, with the default configuration and the fee rate
  2000, above the maximum 1000. For an address with no outputs the call fails with
  the no-outputs error, not the out-of-range error. For an address with one output
  the call fails with the out-of-range error, after it has asked the service for the
  outputs: the request is in the log.
\<close>

theorem SelectUTXOs_fee_check_order_counterexample:
  "MaxFeeRate (cfg_Transaction (configManager (fresh_manager getDefaultConfig []))) <s 2000
   \<and> fst (SelectUTXOs (fresh_manager getDefaultConfig []) ''sender'' 500 2000)
       = Inl (NoUTXOsAvailable ''sender'')
   \<and> fst (SelectUTXOs (fresh_manager getDefaultConfig [response ''a'' 1000 6]) ''sender'' 500 2000)
       = Inl (FeeRateExceedsMaximumAllowed 2000 1000)
   \<and> requests (fresh_manager getDefaultConfig [response ''a'' 1000 6]) = []
   \<and> requests (snd (SelectUTXOs (fresh_manager getDefaultConfig [response ''a'' 1000 6])
          ''sender'' 500 2000))
       = [''https://api.whatsonchain.com/v1/bsv/test/address/sender/unspent'']"
  by (simp add: select_none_above_maximum select_one_above_maximum requests_SelectUTXOs_fresh)
     (simp add: fresh_manager_def getDefaultConfig_def getDefaultTransactionConfig_def
        getTestnetConfig_def unspent_url_def word_sless_alt)

section \<open>The insufficient-funds report\<close>

lemma totalValue_mset: "mset xs = mset ys \<Longrightarrow> totalValue xs = totalValue ys"
proof -
  assume "mset xs = mset ys"
  then have "mset (map Value xs) = mset (map Value ys)" by simp
  then have "sum_mset (mset (map Value xs)) = sum_mset (mset (map Value ys))" by simp
  then show ?thesis unfolding totalValue_def by (simp only: sum_mset_sum_list)
qed

lemma SelectUTXOs_insufficient_funds:
  assumes fetch: "fst (GetUTXOs m address) = Inr allUTXOs"
    and txConfig_def: "txConfig = cfg_Transaction (configManager m)"
    and cand: "candidates txConfig allUTXOs \<noteq> []"
    and rate: "\<not> MaxFeeRate txConfig <s effective_rate txConfig feeRate"
    and none: "\<forall>k. 0 < k \<and> k \<le> length (candidates txConfig allUTXOs) \<longrightarrow>
                 \<not> funded amount (effective_rate txConfig feeRate)
                      (sortUTXOsByValue (candidates txConfig allUTXOs)) k"
  shows "fst (SelectUTXOs m address amount feeRate)
     = Inl (InsufficientFunds
              (amount + fee_for (length (candidates txConfig allUTXOs)) feeRate)
              (totalValue (candidates txConfig allUTXOs)))"
proof -
  let ?s = "sortUTXOsByValue (candidates txConfig allUTXOs)"
  have l: "length ?s = length (candidates txConfig allUTXOs)"
    using sortUTXOsByValue_mset [of "candidates txConfig allUTXOs"] by (rule mset_eq_length)
  have t: "totalValue ?s = totalValue (candidates txConfig allUTXOs)"
    using sortUTXOsByValue_mset [of "candidates txConfig allUTXOs"] by (rule totalValue_mset)
  have n: "spec_first_funded amount (effective_rate txConfig feeRate) ?s = None"
    unfolding spec_first_funded_None using none l by simp
  have a: "allUTXOs \<noteq> []" using cand by (auto simp: candidates_def)
  show ?thesis
    using fetch cand rate a n
    by (simp add: fst_SelectUTXOs txConfig_def [symmetric] select_from_eq l t)
qed

text \<open>
  C5. The reported available amount is the total of all candidates, and the
  reported needed amount is the amount plus the fee for all candidates at the
  supplied rate (\<open>SelectUTXOs_insufficient_funds\<close>). The estimate is computed
  before the supplied rate is replaced: with the default configuration, one output of
  1100, the amount 1000 and the supplied rate 0, the rate in effect is 5, the fee
  that the funding check uses is 1130, and the error reports that 1000 is needed and
  1100 available; at the supplied rate 5 it reports that 2130 is needed.
\<close>

theorem SelectUTXOs_stale_fee_in_error:
  "effective_rate (cfg_Transaction (configManager
       (fresh_manager getDefaultConfig [response ''a'' 1100 6]))) 0 = 5
   \<and> fee_for 1 5 = 1130
   \<and> fst (SelectUTXOs (fresh_manager getDefaultConfig [response ''a'' 1100 6]) ''sender'' 1000 0)
       = Inl (InsufficientFunds 1000 1100)
   \<and> fst (SelectUTXOs (fresh_manager getDefaultConfig [response ''a'' 1100 6]) ''sender'' 1000 5)
       = Inl (InsufficientFunds 2130 1100)"
proof -
  have a: "effective_rate (cfg_Transaction (configManager
       (fresh_manager getDefaultConfig [response ''a'' 1100 6]))) 0 = 5"
    by (simp add: effective_rate_def fresh_manager_def getDefaultConfig_def
        getDefaultTransactionConfig_def word_sless_alt)
  have b: "fee_for 1 5 = 1130" by (simp add: fee_for_def)
  have c: "fst (SelectUTXOs (fresh_manager getDefaultConfig [response ''a'' 1100 6]) ''sender'' 1000 5)
       = Inl (InsufficientFunds 2130 1100)"
    by (subst select_one_at_rate) (simp_all add: word_sless_alt word_sle_eq)
  show ?thesis by (intro conjI a b c select_one_stale_fee)
qed

section \<open>The token selector applies no fee-rate bounds\<close>

lemma split_loop_eq:
  "split_loop tokenID allUTXOs tokenUTXOs nativeUTXOs =
     (tokenUTXOs @ filter (\<lambda>utxo. \<not> IsNative utxo \<and> TokenID utxo = tokenID) allUTXOs,
      nativeUTXOs @ filter IsNative allUTXOs)"
  by (induction allUTXOs arbitrary: tokenUTXOs nativeUTXOs) simp_all

lemma cover_loop_prefix:
  "\<exists>k. fst (cover_loop key target rest selected running) = selected @ take k rest"
proof (induction rest arbitrary: selected running)
  case Nil
  then show ?case by simp
next
  case (Cons utxo rest)
  show ?case
  proof (cases "target \<le>s running + key utxo")
    case True
    then have "fst (cover_loop key target (utxo # rest) selected running) = selected @ take 1 (utxo # rest)"
      by (simp add: Let_def)
    then show ?thesis by blast
  next
    case False
    from Cons.IH [of "selected @ [utxo]" "running + key utxo"]
    obtain k where "fst (cover_loop key target rest (selected @ [utxo]) (running + key utxo))
        = (selected @ [utxo]) @ take k rest" by blast
    with False have "fst (cover_loop key target (utxo # rest) selected running)
        = selected @ take (Suc k) (utxo # rest)"
      by (simp add: Let_def)
    then show ?thesis by blast
  qed
qed

lemma cover_loop_set:
  "set (fst (cover_loop key target rest [] running)) \<subseteq> set rest"
proof -
  obtain k where "fst (cover_loop key target rest [] running) = [] @ take k rest"
    using cover_loop_prefix [of key target rest "[]" running] by blast
  then show ?thesis by (auto dest: in_set_takeD)
qed

lemma select_token_from_Inr:
  assumes "select_token_from allUTXOs tokenID amount feeRate = Inr (selected, fee)"
  shows "\<exists>selectedTokenUTXOs selectedNativeUTXOs.
           selected = selectedTokenUTXOs @ selectedNativeUTXOs
           \<and> list_all (\<lambda>utxo. \<not> IsNative utxo \<and> TokenID utxo = tokenID) selectedTokenUTXOs
           \<and> list_all IsNative selectedNativeUTXOs
           \<and> fee = fee_for (length selectedTokenUTXOs) feeRate"
proof -
  let ?tok = "filter (\<lambda>utxo. \<not> IsNative utxo \<and> TokenID utxo = tokenID) allUTXOs"
  let ?nat = "filter IsNative allUTXOs"
  let ?st = "fst (cover_loop TokenAmount amount (sortUTXOsByTokenAmount ?tok) [] 0)"
  let ?fee = "fee_for (length ?st) feeRate"
  let ?sn = "fst (cover_loop Value ?fee (sortUTXOsByValue ?nat) [] 0)"
  have r: "selected = ?st @ ?sn \<and> fee = ?fee"
    using assms
    by (simp add: select_token_from_def split_loop_eq Let_def split: if_splits prod.splits)
  have "set ?st \<subseteq> set (sortUTXOsByTokenAmount ?tok)" by (rule cover_loop_set)
  also have "\<dots> = set ?tok" using sortUTXOsByTokenAmount_mset [of ?tok] by (rule mset_eq_setD)
  finally have t: "list_all (\<lambda>utxo. \<not> IsNative utxo \<and> TokenID utxo = tokenID) ?st"
    by (auto simp: list_all_iff)
  have "set ?sn \<subseteq> set (sortUTXOsByValue ?nat)" by (rule cover_loop_set)
  also have "\<dots> = set ?nat" using sortUTXOsByValue_mset [of ?nat] by (rule mset_eq_setD)
  finally have n: "list_all IsNative ?sn" by (auto simp: list_all_iff)
  from r t n show ?thesis by blast
qed

lemma select_token_from_errors:
  "select_token_from allUTXOs tokenID amount feeRate = Inl err \<Longrightarrow>
   (\<exists>need have. err = InsufficientTokenBalance need have)
   \<or> (\<exists>need have. err = InsufficientNativeForFees need have)"
  by (auto simp: select_token_from_def Let_def split: if_splits prod.splits)

text \<open>
  C9. \<^verbatim>\<open>SelectUTXOsForTokenTransfer\<close> never fails with a fee-rate error, whatever
  the fee rate and the configuration, and the fee it returns is
  \<open>(10 + 148 k + 34 + 34) * feeRate\<close> in \<^verbatim>\<open>int64\<close> arithmetic, for the supplied rate
  and \<open>k\<close> the number of token (non-native) outputs selected; at the rate 0 the fee
  is 0.
\<close>

theorem SelectUTXOsForTokenTransfer_fee:
  "(\<forall>rate bound.
       fst (SelectUTXOsForTokenTransfer m address tokenID amount feeRate)
         \<noteq> Inl (FeeRateExceedsMaximumAllowed rate bound)
       \<and> fst (SelectUTXOsForTokenTransfer m address tokenID amount feeRate)
         \<noteq> Inl (FeeRateExceedsMaximum rate bound)
       \<and> fst (SelectUTXOsForTokenTransfer m address tokenID amount feeRate)
         \<noteq> Inl (FeeRateBelowMinimum rate bound))
   \<and> (\<forall>selected fee.
         fst (SelectUTXOsForTokenTransfer m address tokenID amount feeRate) = Inr (selected, fee) \<longrightarrow>
           fee = word_of_nat (10 + 148 * length (filter (\<lambda>utxo. \<not> IsNative utxo) selected) + 34 + 34)
                   * feeRate)
   \<and> (\<forall>selected fee.
         fst (SelectUTXOsForTokenTransfer m address tokenID amount 0) = Inr (selected, fee) \<longrightarrow>
           fee = 0)"
proof -
  have res: "fst (SelectUTXOsForTokenTransfer m address tokenID amount rate) =
      (case fst (GetUTXOs m address) of
         Inl err \<Rightarrow> Inl err
       | Inr allUTXOs \<Rightarrow> select_token_from allUTXOs tokenID amount rate)" for rate
    by (cases "GetUTXOs m address"; cases "fst (GetUTXOs m address)")
       (simp_all add: SelectUTXOsForTokenTransfer_def)
  have fetch_err: "\<exists>e. err = GetUTXOsFailed e" if "fst (GetUTXOs m address) = Inl err" for err
  proof (cases "fst (getFromCache m address)")
    case None
    with that show ?thesis by (auto simp: GetUTXOs_miss split: sum.splits)
  next
    case (Some entry)
    with that show ?thesis by (simp add: GetUTXOs_hit)
  qed
  have errs: "(\<exists>e. err = GetUTXOsFailed e)
      \<or> (\<exists>need have. err = InsufficientTokenBalance need have)
      \<or> (\<exists>need have. err = InsufficientNativeForFees need have)"
    if "fst (SelectUTXOsForTokenTransfer m address tokenID amount feeRate) = Inl err" for err
  proof (cases "fst (GetUTXOs m address)")
    case (Inl e)
    with that res [of feeRate] have "err = e" by simp
    with Inl fetch_err show ?thesis by blast
  next
    case (Inr allUTXOs)
    with that res [of feeRate] have "select_token_from allUTXOs tokenID amount feeRate = Inl err"
      by simp
    then show ?thesis using select_token_from_errors by blast
  qed
  have fee: "fee = word_of_nat (10 + 148 * length (filter (\<lambda>utxo. \<not> IsNative utxo) selected) + 34 + 34)
                   * rate"
    if "fst (SelectUTXOsForTokenTransfer m address tokenID amount rate) = Inr (selected, fee)"
    for selected fee rate
  proof (cases "fst (GetUTXOs m address)")
    case (Inl e)
    with that res [of rate] show ?thesis by simp
  next
    case (Inr allUTXOs)
    with that res [of rate] have "select_token_from allUTXOs tokenID amount rate = Inr (selected, fee)"
      by simp
    then obtain st sn where s: "selected = st @ sn"
        "list_all (\<lambda>utxo. \<not> IsNative utxo \<and> TokenID utxo = tokenID) st"
        "list_all IsNative sn" "fee = fee_for (length st) rate"
      using select_token_from_Inr by blast
    have "filter (\<lambda>utxo. \<not> IsNative utxo) st = st"
      using s(2) by (auto simp: list_all_iff intro: filter_True)
    moreover have "filter (\<lambda>utxo. \<not> IsNative utxo) sn = []"
      using s(3) by (auto simp: list_all_iff filter_empty_conv)
    ultimately have "filter (\<lambda>utxo. \<not> IsNative utxo) selected = st" using s(1) by simp
    with s(4) show ?thesis by (simp add: fee_for_def mult.commute)
  qed
  have 1: "fst (SelectUTXOsForTokenTransfer m address tokenID amount feeRate)
         \<noteq> Inl (FeeRateExceedsMaximumAllowed rate bound)
       \<and> fst (SelectUTXOsForTokenTransfer m address tokenID amount feeRate)
         \<noteq> Inl (FeeRateExceedsMaximum rate bound)
       \<and> fst (SelectUTXOsForTokenTransfer m address tokenID amount feeRate)
         \<noteq> Inl (FeeRateBelowMinimum rate bound)" for rate bound
    using errs by fastforce
  have 3: "fee = 0"
    if "fst (SelectUTXOsForTokenTransfer m address tokenID amount 0) = Inr (selected, fee)"
    for selected fee
    using fee [OF that] by simp
  from 1 fee 3 show ?thesis by blast
qed

lemma select_token_above_maximum:
  "fst (SelectUTXOsForTokenTransfer (cached_manager getDefaultConfig token_entry 0)
          ''sender'' ''tok'' 5 2000)
     = Inr ([token_utxo ''t'' ''tok'' 10, native_utxo ''a'' 1000000], 452000)"
proof -
  let ?M = "cached_manager getDefaultConfig token_entry 0"
  have "fst (getFromCache ?M ''sender'') = Some token_entry"
    unfolding getFromCache_Some
    by (simp add: cached_manager_def fresh_manager_def getDefaultConfig_def
        getDefaultUTXOConfig_def token_entry_def time_Sub_def cacheTTL_def word_sle_eq)
  then have g: "GetUTXOs ?M ''sender'' = (Inr (UTXOs token_entry), snd (getFromCache ?M ''sender''))"
    by (rule GetUTXOs_hit)
  have "select_token_from (UTXOs token_entry) ''tok'' 5 2000
      = Inr ([token_utxo ''t'' ''tok'' 10, native_utxo ''a'' 1000000], 452000)"
    by (simp add: select_token_from_def token_entry_def token_utxo_def native_utxo_def Let_def
        sortUTXOsByTokenAmount_def sortUTXOsByValue_def bubble_outer.simps fee_for_def
        word_sless_alt word_sle_eq)
  with g show ?thesis by (simp add: SelectUTXOsForTokenTransfer_def)
qed

theorem SelectUTXOsForTokenTransfer_fee_witness:
  "MaxFeeRate (cfg_Transaction (configManager (cached_manager getDefaultConfig token_entry 0)))
     <s 2000
   \<and> fst (SelectUTXOsForTokenTransfer (cached_manager getDefaultConfig token_entry 0)
          ''sender'' ''tok'' 5 2000)
       = Inr ([token_utxo ''t'' ''tok'' 10, native_utxo ''a'' 1000000], 452000)
   \<and> (452000 :: int64)
       = word_of_nat (10 + 148 * length (filter (\<lambda>utxo. \<not> IsNative utxo)
                        [token_utxo ''t'' ''tok'' 10, native_utxo ''a'' 1000000]) + 34 + 34)
         * 2000"
proof -
  let ?M = "cached_manager getDefaultConfig token_entry 0"
  have m: "MaxFeeRate (cfg_Transaction (configManager ?M)) <s 2000"
    by (simp add: cached_manager_def fresh_manager_def getDefaultConfig_def
        getDefaultTransactionConfig_def word_sless_alt)
  from SelectUTXOsForTokenTransfer_fee [of ?M "''sender''" "''tok''" 5 2000]
  have "fst (SelectUTXOsForTokenTransfer ?M ''sender'' ''tok'' 5 2000)
        = Inr ([token_utxo ''t'' ''tok'' 10, native_utxo ''a'' 1000000], 452000) \<longrightarrow>
      (452000 :: int64)
       = word_of_nat (10 + 148 * length (filter (\<lambda>utxo. \<not> IsNative utxo)
                        [token_utxo ''t'' ''tok'' 10, native_utxo ''a'' 1000000]) + 34 + 34)
         * 2000"
    by blast
  with select_token_above_maximum m show ?thesis by blast
qed

end
